theory Spec2Isabelle
  imports Complex_Main "HOL-Library.AList"
begin

section \<open>Feature Pyramid Network: \<^verbatim>\<open>libs/model/backbone/fpn.py\<close>\<close>

text \<open>
  A shallow embedding of the module. Python exceptions are values of \<open>error\<close>, a
  function that can raise returns \<open>error + 'a\<close> (\<open>Inl\<close> the exception), dictionaries
  are association lists in insertion order (\<open>AList.update\<close> is Python's
  \<^verbatim>\<open>d[k] = v\<close>: it overwrites in place or appends at the end), and everything a
  method prints is returned as a list of lines.
\<close>

subsection \<open>Exceptions\<close>

datatype error =
    KeyError string
  | IndexError
  | ValueError
  | AssertionError string
  | UnboundLocalError string
  | RuntimeError
  | FileNotFoundError string
  | OSError
  | EOFError
  | UnpicklingError
  | TypeError
  | AttributeError

definition ebind :: "error + 'a \<Rightarrow> ('a \<Rightarrow> error + 'b) \<Rightarrow> error + 'b" where
  "ebind m f = (case m of Inl e \<Rightarrow> Inl e | Inr v \<Rightarrow> f v)"

text \<open>\<^verbatim>\<open>d[k]\<close> on a dictionary: \<^verbatim>\<open>KeyError\<close> when the key is absent.\<close>

definition getitem :: "(string \<times> 'a) list \<Rightarrow> string \<Rightarrow> error + 'a" where
  "getitem d k = (case map_of d k of None \<Rightarrow> Inl (KeyError k) | Some v \<Rightarrow> Inr v)"

text \<open>A dictionary built from key/value pairs in order (a dict comprehension, \<^verbatim>\<open>dict(zip(..))\<close>).\<close>

definition dict :: "(string \<times> 'a) list \<Rightarrow> (string \<times> 'a) list" where
  "dict kvs = fold (\<lambda>kv d. AList.update (fst kv) (snd kv) d) kvs []"

subsection \<open>Strings\<close>

text \<open>\<^verbatim>\<open>str(n)\<close> for an integer, as \<^verbatim>\<open>"{}".format(n)\<close> prints it.\<close>

definition digit :: "nat \<Rightarrow> char" where
  "digit d = ''0123456789'' ! d"

fun str_nat :: "nat \<Rightarrow> string" where
  "str_nat n =
     (if n < 10 then [digit n]
      else str_nat (n div 10) @ [digit (n mod 10)])"

declare str_nat.simps [simp del]

definition str_int :: "int \<Rightarrow> string" where
  "str_int i = (if i < 0 then CHR ''-'' # str_nat (nat (- i)) else str_nat (nat i))"

text \<open>\<^verbatim>\<open>s.split(c)\<close>: the pieces of \<open>s\<close> between occurrences of \<open>c\<close>; never empty.\<close>

fun split :: "char \<Rightarrow> string \<Rightarrow> string list" where
  "split c [] = [[]]"
| "split c (x # xs) =
     (if x = c then [] # split c xs
      else (case split c xs of
              [] \<Rightarrow> [[x]]
            | p # ps \<Rightarrow> (x # p) # ps))"

subsection \<open>Floating-point numbers\<close>

text \<open>
  The elements of tensors and arrays are binary floating-point numbers: \<open>Finite m e\<close> is
  the number \<open>m * 2 ^ e\<close>, kept in lowest terms (\<open>m\<close> odd, or \<open>m = e = 0\<close>), next to
  the two infinities and NaN. The sign of a zero and the payload of a NaN are not
  represented: no operation below tells them apart. Arithmetic is in the default mode
  of IEEE 754: rounding to nearest with ties to even, and gradual underflow.
\<close>

datatype float = Finite int int | PInf | NInf | NaN

definition float_value :: "float \<Rightarrow> real" where
  "float_value x = (case x of Finite m e \<Rightarrow> of_int m * 2 powr of_int e | _ \<Rightarrow> 0)"

text \<open>The number of binary digits of a natural number, and the lowest terms of \<open>m * 2 ^ e\<close>.\<close>

fun bitlen :: "nat \<Rightarrow> nat" where
  "bitlen n = (if n = 0 then 0 else Suc (bitlen (n div 2)))"

declare bitlen.simps [simp del]

function normalise :: "int \<Rightarrow> int \<Rightarrow> int \<times> int" where
  "normalise m e =
     (if m = 0 then (0, 0)
      else if even m then normalise (m div 2) (e + 1)
      else (m, e))"
  by pat_completeness auto
termination
  by (relation "measure (\<lambda>(m, e). nat \<bar>m\<bar>)") auto

declare normalise.simps [simp del]

text \<open>
  The values of IEEE 754 binary32, the framework's default element type: 24 binary
  digits, a last place no smaller than \<open>2 ^ - 149\<close>, a magnitude below \<open>2 ^ 128\<close>.
\<close>

definition float32 :: "float \<Rightarrow> bool" where
  "float32 x =
     (case x of
        Finite m e \<Rightarrow>
          (if m = 0 then e = 0
           else odd m \<and> - 149 \<le> e \<and> bitlen (nat \<bar>m\<bar>) \<le> 24 \<and>
                int (bitlen (nat \<bar>m\<bar>)) + e \<le> 128)
      | _ \<Rightarrow> True)"

text \<open>
  Rounding the exact number \<open>m * 2 ^ e\<close> to binary32, to nearest with ties to even: the
  last place \<open>t\<close> kept is 24 digits below the leading one, but not below \<open>- 149\<close>
  (subnormal numbers); \<open>round_shift m s\<close> is \<open>m / 2 ^ s\<close> rounded to an integer; a
  rounded magnitude of \<open>2 ^ 128\<close> or more is an infinity.
\<close>

definition overflow32 :: "int \<Rightarrow> int \<Rightarrow> float" where
  "overflow32 m e =
     (case normalise m e of
        (m', e') \<Rightarrow>
          if 128 < int (bitlen (nat \<bar>m'\<bar>)) + e' then (if 0 < m' then PInf else NInf)
          else Finite m' e')"

definition round_shift :: "int \<Rightarrow> nat \<Rightarrow> int" where
  "round_shift m s =
     (let q = m div 2 ^ s; r = m mod 2 ^ s; h = 2 ^ (s - 1)
      in if r < h then q else if h < r then q + 1 else if even q then q else q + 1)"

definition round32 :: "int \<Rightarrow> int \<Rightarrow> float" where
  "round32 m e =
     (let t = max (- 149) (int (bitlen (nat \<bar>m\<bar>)) + e - 24)
      in if t \<le> e then overflow32 m e else overflow32 (round_shift m (nat (t - e))) t)"

text \<open>The binary32 value of an integer literal.\<close>

definition f32 :: "int \<Rightarrow> float" where
  "f32 n = round32 n 0"

text \<open>
  Addition, division by the literal 2 (line 183), comparison and maximum of binary32
  numbers: the exact result, rounded. An operation on NaN gives NaN, and a comparison
  with NaN is false.
\<close>

definition fadd :: "float \<Rightarrow> float \<Rightarrow> float" where
  "fadd x y =
     (case x of
        Finite m1 e1 \<Rightarrow>
          (case y of
             Finite m2 e2 \<Rightarrow>
               (let e = min e1 e2
                in round32 (m1 * 2 ^ nat (e1 - e) + m2 * 2 ^ nat (e2 - e)) e)
           | _ \<Rightarrow> y)
      | PInf \<Rightarrow> (case y of NInf \<Rightarrow> NaN | NaN \<Rightarrow> NaN | _ \<Rightarrow> PInf)
      | NInf \<Rightarrow> (case y of PInf \<Rightarrow> NaN | NaN \<Rightarrow> NaN | _ \<Rightarrow> NInf)
      | NaN \<Rightarrow> NaN)"

definition fdiv2 :: "float \<Rightarrow> float" where
  "fdiv2 x = (case x of Finite m e \<Rightarrow> round32 m (e - 1) | _ \<Rightarrow> x)"

definition fless :: "float \<Rightarrow> float \<Rightarrow> bool" where
  "fless x y =
     (case x of
        Finite m1 e1 \<Rightarrow>
          (case y of
             Finite m2 e2 \<Rightarrow>
               (let e = min e1 e2 in m1 * 2 ^ nat (e1 - e) < m2 * 2 ^ nat (e2 - e))
           | PInf \<Rightarrow> True
           | _ \<Rightarrow> False)
      | NInf \<Rightarrow> (case y of Finite m2 e2 \<Rightarrow> True | PInf \<Rightarrow> True | _ \<Rightarrow> False)
      | _ \<Rightarrow> False)"

definition fmax :: "float \<Rightarrow> float \<Rightarrow> float" where
  "fmax x y = (if x = NaN \<or> y = NaN then NaN else if fless x y then y else x)"

text \<open>
  Conversion of an element to the type of the tensor it is copied into: rounding to
  binary32, and truncation toward zero to a 64-bit integer. The framework leaves the
  conversion to an integer undefined for NaN, the infinities and numbers outside the
  64-bit range; the model takes the result of the x86-64 conversion instruction there,
  \<open>- 2 ^ 63\<close>.
\<close>

datatype dtype = Float32 | Int64

definition to_float32 :: "float \<Rightarrow> float" where
  "to_float32 x = (case x of Finite m e \<Rightarrow> round32 m e | _ \<Rightarrow> x)"

definition to_int64 :: "float \<Rightarrow> float" where
  "to_int64 x =
     (case x of
        Finite m e \<Rightarrow>
          (let k = (if 0 \<le> e then m * 2 ^ nat e else sgn m * (\<bar>m\<bar> div 2 ^ nat (- e)))
           in if - (2 ^ 63) \<le> k \<and> k < 2 ^ 63
              then (case normalise k 0 of (m', e') \<Rightarrow> Finite m' e')
              else Finite (- 1) 63)
      | _ \<Rightarrow> Finite (- 1) 63)"

definition cast :: "dtype \<Rightarrow> float \<Rightarrow> float" where
  "cast t x = (case t of Float32 \<Rightarrow> to_float32 x | Int64 \<Rightarrow> to_int64 x)"

subsection \<open>Checkpoint loading\<close>

text \<open>
  An array: its shape and its elements, as many as the shape says. The values of a
  checkpoint are numpy arrays of any numeric type, and \<^verbatim>\<open>torch.from_numpy\<close> keeps
  shape and elements. A parameter or buffer of the module is an array with an element
  type (the module is in its default precision: binary32, and 64-bit integers for
  counters), and \<open>hook_supplied\<close> says whether the load hook of its module puts the
  module's own value into the state dictionary when the entry is absent from it, as the
  framework's batch normalisation does for \<^verbatim>\<open>num_batches_tracked\<close> when the dictionary
  carries no version metadata (a plain \<^verbatim>\<open>dict\<close> carries none).
\<close>

record ndarray =
  shape :: "nat list"
  data :: "float list"

record param = ndarray +
  param_dtype :: dtype
  hook_supplied :: bool

type_synonym checkpoint = "(string \<times> ndarray) list"
type_synonym state_dict = "(string \<times> param) list"

text \<open>
  What the file system holds at a path. \<open>None\<close>: there is no such file, and \<^verbatim>\<open>open\<close>
  raises \<^verbatim>\<open>FileNotFoundError\<close>. \<open>NoAccess e\<close>: \<^verbatim>\<open>os.path.exists\<close> is false as well,
  but \<^verbatim>\<open>open\<close> raises another exception \<open>e\<close> (\<^verbatim>\<open>ValueError\<close> for a path with a
  NUL character, \<^verbatim>\<open>OSError\<close> for a path that is too long or lies behind a directory
  that may not be searched). \<open>Unreadable e\<close>: the path exists, but line 212 or the call
  of \<^verbatim>\<open>items\<close> in line 215 raises \<open>e\<close> (\<^verbatim>\<open>OSError\<close> for a directory or a file that
  may not be read, \<^verbatim>\<open>EOFError\<close> for an empty file, \<^verbatim>\<open>UnpicklingError\<close> and others
  for bytes that are no pickle, \<^verbatim>\<open>TypeError\<close> for a pickled object that has no
  subscript, \<^verbatim>\<open>AttributeError\<close> for a \<^verbatim>\<open>"model"\<close> entry that is no dictionary).
  \<open>NoModel\<close>: a pickled dictionary without the key \<^verbatim>\<open>"model"\<close>. \<open>Model m\<close>: a pickled
  dictionary whose \<^verbatim>\<open>"model"\<close> entry is the dictionary \<open>m\<close> from strings to numpy
  arrays of a numeric type, the values \<^verbatim>\<open>torch.from_numpy\<close> accepts.
\<close>

datatype pkl_file = NoAccess error | Unreadable error | NoModel | Model checkpoint

definition path_exists :: "(string \<rightharpoonup> pkl_file) \<Rightarrow> string \<Rightarrow> bool" where
  "path_exists fs model_path =
     (case fs model_path of
        None \<Rightarrow> False
      | Some (NoAccess e) \<Rightarrow> False
      | Some _ \<Rightarrow> True)"

definition pkl_load_model :: "(string \<rightharpoonup> pkl_file) \<Rightarrow> string \<Rightarrow> error + checkpoint" where
  "pkl_load_model fs model_path =
     (case fs model_path of
        None \<Rightarrow> Inl (FileNotFoundError model_path)
      | Some (NoAccess e) \<Rightarrow> Inl e
      | Some (Unreadable e) \<Rightarrow> Inl e
      | Some NoModel \<Rightarrow> Inl (KeyError ''model'')
      | Some (Model m) \<Rightarrow> Inr m)"

text \<open>
  The framework's \<^verbatim>\<open>Module.load_state_dict(state_dict, strict)\<close>, which the
  repository calls and does not define, for modules whose only load hook is the one
  described above. The entries of the module are visited in the order of its own state
  dictionary. For an entry whose name is in \<open>state_dict\<close>: a one-dimensional array offered
  to a parameter of no dimension is replaced by its first element (\<^verbatim>\<open>IndexError\<close>,
  which ends the load at once, when it has none); then an array of another shape is
  recorded as an error and not copied, and an array of the same shape is copied, each
  element converted to the parameter's type. After the visit, with \<open>strict\<close>, the names
  that only \<open>state_dict\<close> has and the names that only the module has (and no hook
  supplies) are errors too; any recorded error raises \<^verbatim>\<open>RuntimeError\<close>, after the
  copying.
\<close>

definition copy_param :: "param \<Rightarrow> ndarray \<Rightarrow> param" where
  "copy_param p v = p\<lparr>data := map (cast (param_dtype p)) (data v)\<rparr>"

definition load_param :: "param \<Rightarrow> ndarray \<Rightarrow> error + bool \<times> param" where
  "load_param p v =
     (if shape p = [] \<and> length (shape v) = 1
      then (if data v = [] then Inl IndexError
            else Inr (True, copy_param p \<lparr>shape = [], data = [hd (data v)]\<rparr>))
      else if shape v = shape p then Inr (True, copy_param p v)
      else Inr (False, p))"

fun load_params :: "checkpoint \<Rightarrow> state_dict \<Rightarrow> error option \<times> string list \<times> state_dict" where
  "load_params sd [] = (None, [], [])"
| "load_params sd ((k, p) # own) =
     (case map_of sd k of
        None \<Rightarrow>
          (case load_params sd own of
             (r, error_msgs, own') \<Rightarrow> (r, error_msgs, (k, p) # own'))
      | Some v \<Rightarrow>
          (case load_param p v of
             Inl e \<Rightarrow> (Some e, [], (k, p) # own)
           | Inr (copied, p') \<Rightarrow>
               (case load_params sd own of
                  (r, error_msgs, own') \<Rightarrow>
                    (r, if copied then error_msgs else k # error_msgs, (k, p') # own'))))"

definition load_state_dict :: "state_dict \<Rightarrow> checkpoint \<Rightarrow> bool \<Rightarrow> error option \<times> state_dict" where
  "load_state_dict own sd strict =
     (case load_params sd own of
        (Some e, error_msgs, own') \<Rightarrow> (Some e, own')
      | (None, error_msgs, own') \<Rightarrow>
          (let missing_keys =
                 filter (\<lambda>k. k \<notin> set (map fst sd))
                   (map fst (filter (\<lambda>kp. \<not> hook_supplied (snd kp)) own));
               unexpected_keys = filter (\<lambda>k. k \<notin> set (map fst own)) (map fst sd)
           in (if error_msgs \<noteq> [] \<or> (strict \<and> (unexpected_keys \<noteq> [] \<or> missing_keys \<noteq> []))
               then Some RuntimeError else None,
               own')))"

text \<open>
  Lines 214-218: keep the entries whose first dotted segment is \<^verbatim>\<open>backbone\<close>, under
  the key without its first nine characters.
\<close>

definition new_checkpoint :: "checkpoint \<Rightarrow> checkpoint" where
  "new_checkpoint checkpoint =
     fold (\<lambda>kv d. if split CHR ''.'' (fst kv) ! 0 = ''backbone''
                   then AList.update (drop 9 (fst kv)) (snd kv) d else d)
       checkpoint []"

text \<open>
  A Python \<^verbatim>\<open>set\<close> of keys is a duplicate-free list here; the order in which Python
  iterates a set is not specified, and nothing below depends on the order chosen.
\<close>

definition missing_keys :: "string list \<Rightarrow> string list \<Rightarrow> string list" where
  "missing_keys own_keys ckpt_keys = filter (\<lambda>k. k \<notin> set ckpt_keys) (remdups own_keys)"

definition remain_keys :: "string list \<Rightarrow> string list \<Rightarrow> string list" where
  "remain_keys own_keys ckpt_keys = filter (\<lambda>k. k \<notin> set own_keys) (remdups ckpt_keys)"

definition no_checkpoint_msg :: "string \<Rightarrow> string" where
  "no_checkpoint_msg model_path = ''=> no checkpoint found at '' @ [CHR 0x27] @ model_path @ [CHR 0x27]"

definition missing_msg :: "string \<Rightarrow> string \<Rightarrow> string" where
  "missing_msg model_path k = ''missing keys from checkpoint '' @ model_path @ '': '' @ k"

definition remaining_msg :: "string \<Rightarrow> string \<Rightarrow> string" where
  "remaining_msg model_path k = ''remaining keys from model '' @ model_path @ '': '' @ k"

definition success_msg :: "string \<Rightarrow> string" where
  "success_msg model_path = ''successfully load model from '' @ model_path"

definition report :: "string \<Rightarrow> string list \<Rightarrow> string list \<Rightarrow> string list" where
  "report model_path own_keys ckpt_keys =
     map (missing_msg model_path) (missing_keys own_keys ckpt_keys)
     @ map (remaining_msg model_path) (remain_keys own_keys ckpt_keys)
     @ (if missing_keys own_keys ckpt_keys = [] \<and> remain_keys own_keys ckpt_keys = []
        then [success_msg model_path] else [])"

text \<open>
  The outcome of a load: the exception that left the method (if any), the module's
  parameters afterwards, and the lines printed.
\<close>

record load_result =
  raised :: "error option"
  params :: state_dict
  printed :: "string list"

text \<open>
  \<^verbatim>\<open>FPN.load_pretrain\<close> (lines 209-232). \<open>own\<close> is \<^verbatim>\<open>self.state_dict()\<close>. The
  test of line 210 only prints: control continues to line 212, where \<^verbatim>\<open>open\<close> raises
  for a path that does not exist.
\<close>

definition load_pretrain :: "(string \<rightharpoonup> pkl_file) \<Rightarrow> state_dict \<Rightarrow> string \<Rightarrow> load_result" where
  "load_pretrain fs own model_path =
     (let out = (if path_exists fs model_path then [] else [no_checkpoint_msg model_path])
      in case pkl_load_model fs model_path of
           Inl e \<Rightarrow> \<lparr>raised = Some e, params = own, printed = out\<rparr>
         | Inr checkpoint \<Rightarrow>
             (let checkpoint = new_checkpoint checkpoint;
                  loaded = load_state_dict own checkpoint True
              in case fst loaded of
                   Some e \<Rightarrow> \<lparr>raised = Some e, params = snd loaded, printed = out\<rparr>
                 | None \<Rightarrow>
                     \<lparr>raised = None, params = snd loaded,
                      printed = out @ report model_path (map fst (snd loaded)) (map fst checkpoint)\<rparr>))"

subsection \<open>Tensors and the framework's operations\<close>

text \<open>
  A feature map is a rectangular four-dimensional array (batch, channel, height, width),
  a list nested four deep, of binary32 numbers (the framework's default element type).
  The operations below are the framework's, as its documentation states them, for such
  arrays.
\<close>

type_synonym plane = "float list list"
type_synonym tensor = "plane list list"

fun map_err :: "('a \<Rightarrow> error + 'b) \<Rightarrow> 'a list \<Rightarrow> error + 'b list" where
  "map_err f [] = Inr []"
| "map_err f (x # xs) = ebind (f x) (\<lambda>y. ebind (map_err f xs) (\<lambda>ys. Inr (y # ys)))"

text \<open>
  One dimension of an elementwise binary operation with broadcasting: equal sizes are
  paired up, a size of one is repeated, anything else is a shape error.
\<close>

definition broadcast :: "('a \<Rightarrow> 'b \<Rightarrow> error + 'c) \<Rightarrow> 'a list \<Rightarrow> 'b list \<Rightarrow> error + 'c list" where
  "broadcast f xs ys =
     (if length xs = length ys then map_err (\<lambda>xy. f (fst xy) (snd xy)) (zip xs ys)
      else if length xs = 1 then map_err (f (hd xs)) ys
      else if length ys = 1 then map_err (\<lambda>x. f x (hd ys)) xs
      else Inl RuntimeError)"

definition tensor_add :: "tensor \<Rightarrow> tensor \<Rightarrow> error + tensor" where
  "tensor_add a b = broadcast (broadcast (broadcast (broadcast (\<lambda>x y. Inr (fadd x y))))) a b"

text \<open>\<^verbatim>\<open>a /= 2\<close>: every element divided by two.\<close>

definition tensor_div2 :: "tensor \<Rightarrow> tensor" where
  "tensor_div2 a = map (map (map (map fdiv2))) a"

text \<open>\<^verbatim>\<open>F.relu\<close>: the maximum of every element and zero.\<close>

definition relu :: "tensor \<Rightarrow> tensor" where
  "relu a = map (map (map (map (fmax (Finite 0 0))))) a"

text \<open>\<^verbatim>\<open>torch.full(size, c)\<close> for a four-dimensional size: the constant tensor.\<close>

definition full :: "nat \<Rightarrow> nat \<Rightarrow> nat \<Rightarrow> nat \<Rightarrow> float \<Rightarrow> tensor" where
  "full n ch h w c = replicate n (replicate ch (replicate h (replicate w c)))"

text \<open>
  \<^verbatim>\<open>F.interpolate(t, scale_factor=2, mode="nearest")\<close>: every row and column twice.
  The framework refuses (\<^verbatim>\<open>RuntimeError\<close>) an input with no channels or an empty
  plane; an empty batch is accepted.
\<close>

definition repeat2 :: "'a list \<Rightarrow> 'a list" where
  "repeat2 xs = concat (map (\<lambda>x. [x, x]) xs)"

definition interpolate :: "tensor \<Rightarrow> error + tensor" where
  "interpolate t =
     (if [] \<in> set t \<or> [] \<in> set (concat t) \<or> [] \<in> set (concat (concat t))
      then Inl RuntimeError
      else Inr (map (map (\<lambda>pl. repeat2 (map repeat2 pl))) t))"

text \<open>
  \<^verbatim>\<open>F.max_pool2d(t, kernel_size, stride, padding=0)\<close>: output element \<open>(i, j)\<close> of a
  plane is the maximum of the \<open>kernel_size \<times> kernel_size\<close> window whose corner is
  \<open>(i * stride, j * stride)\<close>. An input with no channels, or with a plane smaller than
  the window (an empty one in particular), is an error; an empty batch is accepted.
\<close>

definition maximum :: "float list \<Rightarrow> float" where
  "maximum xs = fold fmax (tl xs) (hd xs)"

definition pool_size :: "nat \<Rightarrow> nat \<Rightarrow> nat \<Rightarrow> nat" where
  "pool_size n kernel_size stride = (n - kernel_size) div stride + 1"

definition window :: "plane \<Rightarrow> nat \<Rightarrow> nat \<Rightarrow> nat \<Rightarrow> nat \<Rightarrow> float list" where
  "window pl kernel_size stride i j =
     concat (map (\<lambda>di. map (\<lambda>dj. pl ! (i * stride + di) ! (j * stride + dj)) [0..<kernel_size])
                 [0..<kernel_size])"

definition max_pool_plane :: "nat \<Rightarrow> nat \<Rightarrow> plane \<Rightarrow> error + plane" where
  "max_pool_plane kernel_size stride pl =
     (let h = length pl; w = (case pl of [] \<Rightarrow> 0 | r # _ \<Rightarrow> length r)
      in if kernel_size = 0 \<or> stride = 0 \<or> h < kernel_size \<or> w < kernel_size
         then Inl RuntimeError
         else Inr (map (\<lambda>i. map (\<lambda>j. maximum (window pl kernel_size stride i j))
                              [0..<pool_size w kernel_size stride])
                       [0..<pool_size h kernel_size stride]))"

definition max_pool2d :: "tensor \<Rightarrow> nat \<Rightarrow> nat \<Rightarrow> error + tensor" where
  "max_pool2d t kernel_size stride =
     (if [] \<in> set t then Inl RuntimeError
      else map_err (map_err (max_pool_plane kernel_size stride)) t)"

subsection \<open>Convolution modules\<close>

text \<open>
  A convolution module is the record of the arguments it was created with, together with
  its identity: two modules created with equal arguments are still two objects with
  weights of their own. The identity is the place of creation (the lateral or output
  convolution of iteration \<open>idx\<close> of the constructor's loop, or an attribute of a top
  block). \<open>conv_norm\<close> is \<open>None\<close> for a plain \<^verbatim>\<open>nn.Conv2d\<close>, and otherwise holds what
  \<^verbatim>\<open>get_norm\<close> returned. What a module computes depends on its weights: \<open>forward\<close>
  takes it as the parameter \<open>call\<close>.
\<close>

datatype conv_ident = Lateral nat | Output nat | TopP5 | TopP6 | TopP7

record 'n conv2d =
  ident :: conv_ident
  in_channels :: int
  out_channels :: int
  kernel_size :: int
  conv_stride :: int
  padding :: int
  bias :: bool
  conv_norm :: "'n option"

text \<open>
  The module object that a successful call of a convolution's constructor returns.
\<close>

definition Conv2d_object ::
  "conv_ident \<Rightarrow> int \<Rightarrow> int \<Rightarrow> int \<Rightarrow> int \<Rightarrow> int \<Rightarrow> bool \<Rightarrow> 'n option \<Rightarrow> 'n conv2d" where
  "Conv2d_object i inc outc k s p b n =
     \<lparr>ident = i, in_channels = inc, out_channels = outc, kernel_size = k,
      conv_stride = s, padding = p, bias = b, conv_norm = n\<rparr>"

text \<open>
  The framework's constructor, \<^verbatim>\<open>nn.Conv2d.__init__\<close>, with one group: it allocates the
  weight of shape \<open>(out_channels, in_channels, k, k)\<close>, which raises \<^verbatim>\<open>RuntimeError\<close>
  when a channel count is negative; a count of zero is accepted. The kernel size, stride
  and padding are literals of the source, all valid. Running out of memory for a large
  weight is not modelled.
\<close>

definition Conv2d_init ::
  "conv_ident \<Rightarrow> int \<Rightarrow> int \<Rightarrow> int \<Rightarrow> int \<Rightarrow> int \<Rightarrow> bool \<Rightarrow> 'n option \<Rightarrow> error + 'n conv2d" where
  "Conv2d_init i inc outc k s p b n =
     (if inc < 0 \<or> outc < 0 then Inl RuntimeError
      else Inr (Conv2d_object i inc outc k s p b n))"

subsection \<open>Top blocks (lines 268-317)\<close>

text \<open>
  The three top-block classes of the file, each with the attributes the constructor and
  the forward pass read: \<^verbatim>\<open>num_levels\<close>, \<^verbatim>\<open>in_feature\<close> and its own forward pass.
\<close>

datatype 'n top_block =
    LastLevelMaxPool
  | LastLevelConv "'n conv2d"
  | LastLevelP6P7 "'n conv2d" "'n conv2d"

text \<open>The constructors' \<^verbatim>\<open>nn.Conv2d(in, out, 3, 2, 1)\<close>: kernel 3, stride 2, padding 1.\<close>

definition nn_Conv2d :: "conv_ident \<Rightarrow> int \<Rightarrow> int \<Rightarrow> int \<Rightarrow> int \<Rightarrow> int \<Rightarrow> error + 'n conv2d" where
  "nn_Conv2d i inc outc k s p = Conv2d_init i inc outc k s p True None"

definition LastLevelConv_init :: "int \<Rightarrow> error + 'n top_block" where
  "LastLevelConv_init inc =
     ebind (nn_Conv2d TopP5 inc inc 3 2 1) (\<lambda>p5.
     Inr (LastLevelConv p5))"

definition LastLevelP6P7_init :: "int \<Rightarrow> int \<Rightarrow> error + 'n top_block" where
  "LastLevelP6P7_init inc outc =
     ebind (nn_Conv2d TopP6 inc outc 3 2 1) (\<lambda>p6.
     ebind (nn_Conv2d TopP7 outc outc 3 2 1) (\<lambda>p7.
     Inr (LastLevelP6P7 p6 p7)))"

fun num_levels :: "'n top_block \<Rightarrow> nat" where
  "num_levels LastLevelMaxPool = 1"
| "num_levels (LastLevelConv p5) = 1"
| "num_levels (LastLevelP6P7 p6 p7) = 2"

fun in_feature :: "'n top_block \<Rightarrow> string" where
  "in_feature LastLevelMaxPool = ''p5''"
| "in_feature (LastLevelConv p5) = ''p5''"
| "in_feature (LastLevelP6P7 p6 p7) = ''res5''"

fun top_block_forward ::
  "('n conv2d \<Rightarrow> tensor \<Rightarrow> error + tensor) \<Rightarrow> 'n top_block \<Rightarrow> tensor \<Rightarrow> error + tensor list" where
  "top_block_forward call LastLevelMaxPool x =
     ebind (max_pool2d x 1 2) (\<lambda>y. Inr [y])"
| "top_block_forward call (LastLevelConv p5) x =
     ebind (call p5 x) (\<lambda>y. Inr [y])"
| "top_block_forward call (LastLevelP6P7 p6 p7) c5 =
     ebind (call p6 c5) (\<lambda>p6_out.
     ebind (call p7 (relu p6_out)) (\<lambda>p7_out.
     Inr [p6_out, p7_out]))"

subsection \<open>The bottom-up network and the FPN object\<close>

text \<open>
  The bottom-up network: its two dictionaries of per-feature metadata and what calling it
  returns, a dictionary from feature name to feature map.
\<close>

record backbone =
  out_feature_strides :: "(string \<times> int) list"
  out_feature_channels :: "(string \<times> int) list"
  bb_forward :: "tensor \<Rightarrow> error + (string \<times> tensor) list"

text \<open>
  The attributes \<^verbatim>\<open>__init__\<close> sets. \<open>modules\<close> is the part of \<^verbatim>\<open>self._modules\<close> that
  \<^verbatim>\<open>add_module\<close> fills; the attributes written \<^verbatim>\<open>self._x\<close> in the source are \<open>self_x\<close>.
\<close>

record 'n FPN =
  lateral_convs :: "'n conv2d list"
  output_convs :: "'n conv2d list"
  lateral_names :: "string list"
  output_conv_names :: "string list"
  modules :: "(string \<times> 'n conv2d) list"
  top_block :: "'n top_block option"
  in_features :: "string list"
  bottom_up :: backbone
  self_out_feature_strides :: "(string \<times> int) list"
  self_out_features :: "string list"
  self_out_feature_channels :: "(string \<times> int) list"
  self_size_divisibility :: int
  self_fuse_type :: string

subsection \<open>Construction (lines 33-137, 258-265)\<close>

text \<open>
  \<^verbatim>\<open>_assert_strides_are_log2_contiguous\<close>: the loop compares every stride with twice
  its predecessor and stops at the first pair that fails.
\<close>

definition not_contiguous_msg :: "int \<Rightarrow> int \<Rightarrow> string" where
  "not_contiguous_msg stride prev =
     ''Strides '' @ str_int stride @ '' '' @ str_int prev @ '' are not log2 contiguous''"

fun assert_strides_are_log2_contiguous :: "int list \<Rightarrow> error + unit" where
  "assert_strides_are_log2_contiguous (prev # stride # strides) =
     (if stride = 2 * prev then assert_strides_are_log2_contiguous (stride # strides)
      else Inl (AssertionError (not_contiguous_msg stride prev)))"
| "assert_strides_are_log2_contiguous strides = Inr ()"

text \<open>
  \<^verbatim>\<open>int(math.log2(s))\<close>: \<^verbatim>\<open>ValueError\<close> unless \<open>s\<close> is positive, and then the
  integer part of the logarithm. \<^verbatim>\<open>math.log2\<close> returns a double: for \<open>s\<close> below
  \<open>2 ^ 48\<close> its integer part is the one of the exact logarithm, as here; from
  \<open>2 ^ 49 - 1\<close> on the double can be the next integer, which is not modelled. Every
  theorem below that states the name of a level does so for given strides, between 4 and
  128.
\<close>

fun ilog2 :: "nat \<Rightarrow> nat" where
  "ilog2 n = (if n < 2 then 0 else Suc (ilog2 (n div 2)))"

declare ilog2.simps [simp del]

definition int_log2 :: "int \<Rightarrow> error + nat" where
  "int_log2 s = (if s \<le> 0 then Inl ValueError else Inr (ilog2 (nat s)))"

text \<open>
  The state of the loop of lines 81-112: the four lists, the registered modules, the
  variable \<^verbatim>\<open>stage\<close> (unbound before the first iteration), and \<open>created\<close>, every
  convolution constructed so far, in order.
\<close>

record 'n levels =
  lv_lateral_convs :: "'n conv2d list"
  lv_output_convs :: "'n conv2d list"
  lv_lateral_names :: "string list"
  lv_output_conv_names :: "string list"
  lv_modules :: "(string \<times> 'n conv2d) list"
  lv_stage :: "nat option"
  created :: "'n conv2d list"

definition no_levels :: "'n levels" where
  "no_levels =
     \<lparr>lv_lateral_convs = [], lv_output_convs = [], lv_lateral_names = [],
      lv_output_conv_names = [], lv_modules = [], lv_stage = None, created = []\<rparr>"

text \<open>
  The wrapper's \<^verbatim>\<open>Conv2d\<close> of lines 85-102, a subclass of the framework's that also
  stores the normalisation layer: stride and padding default to 1 and 0.
\<close>

definition lateral_Conv2d :: "nat \<Rightarrow> int \<Rightarrow> int \<Rightarrow> bool \<Rightarrow> 'n \<Rightarrow> error + 'n conv2d" where
  "lateral_Conv2d idx inc outc use_bias lateral_norm =
     Conv2d_init (Lateral idx) inc outc 1 1 0 use_bias (Some lateral_norm)"

definition output_Conv2d :: "nat \<Rightarrow> int \<Rightarrow> bool \<Rightarrow> 'n \<Rightarrow> error + 'n conv2d" where
  "output_Conv2d idx outc use_bias output_norm =
     Conv2d_init (Output idx) outc outc 3 1 1 use_bias (Some output_norm)"

text \<open>
  The loop over \<^verbatim>\<open>enumerate(in_channels)\<close>. \<open>get_norm\<close> is the wrapper module's function,
  which is not among the sources: it is a parameter, and may raise. The result is the
  exception that ended the loop (if any) and the state reached.
\<close>

fun build_levels ::
  "(string \<Rightarrow> int \<Rightarrow> error + 'n) \<Rightarrow> string \<Rightarrow> int \<Rightarrow> int list \<Rightarrow> (nat \<times> int) list
     \<Rightarrow> 'n levels \<Rightarrow> error option \<times> 'n levels" where
  "build_levels get_norm norm_name outc in_strides [] st = (None, st)"
| "build_levels get_norm norm_name outc in_strides ((idx, inc) # rest) st =
     (case get_norm norm_name outc of
        Inl e \<Rightarrow> (Some e, st)
      | Inr lateral_norm \<Rightarrow>
     (case get_norm norm_name outc of
        Inl e \<Rightarrow> (Some e, st)
      | Inr output_norm \<Rightarrow>
     (case lateral_Conv2d idx inc outc (norm_name = '''') lateral_norm of
        Inl e \<Rightarrow> (Some e, st)
      | Inr lateral_conv \<Rightarrow>
     (case output_Conv2d idx outc (norm_name = '''') output_norm of
        Inl e \<Rightarrow> (Some e, st\<lparr>created := created st @ [lateral_conv]\<rparr>)
      | Inr output_conv \<Rightarrow>
     (let st1 = st\<lparr>created := created st @ [lateral_conv, output_conv]\<rparr>
      in case int_log2 (in_strides ! idx) of
           Inl e \<Rightarrow> (Some e, st1)
         | Inr stage \<Rightarrow>
             build_levels get_norm norm_name outc in_strides rest
               (st1\<lparr>lv_stage := Some stage,
                    lv_modules :=
                      AList.update (''fpn_output'' @ str_nat stage) output_conv
                        (AList.update (''fpn_lateral'' @ str_nat stage) lateral_conv
                           (lv_modules st1)),
                    lv_lateral_convs := lv_lateral_convs st1 @ [lateral_conv],
                    lv_lateral_names := lv_lateral_names st1 @ [''fpn_lateral'' @ str_nat stage],
                    lv_output_convs := lv_output_convs st1 @ [output_conv],
                    lv_output_conv_names :=
                      lv_output_conv_names st1 @ [''fpn_output'' @ str_nat stage]\<rparr>))))))"

text \<open>Lines 125-127: the dictionary \<^verbatim>\<open>{"p<int(log2(s))>": s for s in in_strides}\<close>.\<close>

definition pyramid_strides :: "int list \<Rightarrow> error + (string \<times> int) list" where
  "pyramid_strides in_strides =
     ebind (map_err (\<lambda>s. ebind (int_log2 s) (\<lambda>stage. Inr (''p'' @ str_nat stage, s))) in_strides)
       (\<lambda>kvs. Inr (dict kvs))"

text \<open>Lines 129-131: the entries the top block adds, for \<open>s\<close> in \<open>range(stage, stage + num_levels)\<close>.\<close>

definition top_block_strides :: "nat \<Rightarrow> nat \<Rightarrow> (string \<times> int) list \<Rightarrow> (string \<times> int) list" where
  "top_block_strides stage n d =
     fold (\<lambda>s d. AList.update (''p'' @ str_nat (s + 1)) (2 ^ (s + 1)) d) [stage..<stage + n] d"

text \<open>
  Lines 114-137, after the loop. The constructor returns the object, or the exception that
  ended it; in both cases together with the convolutions it had constructed.
\<close>

definition finish_init ::
  "backbone \<Rightarrow> string list \<Rightarrow> int \<Rightarrow> 'n top_block option \<Rightarrow> string \<Rightarrow> int list \<Rightarrow> 'n levels
     \<Rightarrow> error + 'n FPN" where
  "finish_init bu in_feats outc tb fuse_type in_strides st =
     ebind (pyramid_strides in_strides) (\<lambda>strides0.
     ebind (case tb of
              None \<Rightarrow> Inr strides0
            | Some t \<Rightarrow>
                (case lv_stage st of
                   None \<Rightarrow> Inl (UnboundLocalError ''stage'')
                 | Some stage \<Rightarrow> Inr (top_block_strides stage (num_levels t) strides0)))
       (\<lambda>strides.
     if in_strides = [] then Inl IndexError
     else if fuse_type \<noteq> ''avg'' \<and> fuse_type \<noteq> ''sum'' then Inl (AssertionError '''')
     else Inr
       \<lparr>lateral_convs = rev (lv_lateral_convs st),
        output_convs = rev (lv_output_convs st),
        lateral_names = rev (lv_lateral_names st),
        output_conv_names = rev (lv_output_conv_names st),
        modules = lv_modules st,
        top_block = tb,
        in_features = in_feats,
        bottom_up = bu,
        self_out_feature_strides = strides,
        self_out_features = map fst strides,
        self_out_feature_channels = dict (map (\<lambda>k. (k, outc)) (map fst strides)),
        self_size_divisibility = last in_strides,
        self_fuse_type = fuse_type\<rparr>))"

definition FPN_init ::
  "(string \<Rightarrow> int \<Rightarrow> error + 'n) \<Rightarrow> backbone \<Rightarrow> string list \<Rightarrow> int \<Rightarrow> string
     \<Rightarrow> 'n top_block option \<Rightarrow> string \<Rightarrow> 'n conv2d list \<times> (error + 'n FPN)" where
  "FPN_init get_norm bu in_feats outc norm_name tb fuse_type =
     (case map_err (getitem (out_feature_strides bu)) in_feats of
        Inl e \<Rightarrow> ([], Inl e)
      | Inr in_strides \<Rightarrow>
     (case map_err (getitem (out_feature_channels bu)) in_feats of
        Inl e \<Rightarrow> ([], Inl e)
      | Inr in_chans \<Rightarrow>
     (case assert_strides_are_log2_contiguous in_strides of
        Inl e \<Rightarrow> ([], Inl e)
      | Inr _ \<Rightarrow>
     (case build_levels get_norm norm_name outc in_strides (enumerate 0 in_chans) no_levels of
        (Some e, st) \<Rightarrow> (created st, Inl e)
      | (None, st) \<Rightarrow> (created st, finish_init bu in_feats outc tb fuse_type in_strides st)))))"

subsection \<open>The output-shape query (lines 200-207)\<close>

record ShapeSpec =
  channels :: int
  stride :: int

definition output_shape :: "'n FPN \<Rightarrow> error + (string \<times> ShapeSpec) list" where
  "output_shape self =
     ebind (map_err (\<lambda>name.
              ebind (getitem (self_out_feature_channels self) name) (\<lambda>c.
              ebind (getitem (self_out_feature_strides self) name) (\<lambda>s.
              Inr (name, \<lparr>channels = c, stride = s\<rparr>))))
            (self_out_features self))
       (\<lambda>kvs. Inr (dict kvs))"

subsection \<open>The forward pass (lines 149-198)\<close>

text \<open>Lines 181-183: the sum of the two tensors, halved when the fusion mode is \<^verbatim>\<open>avg\<close>.\<close>

definition fuse :: "string \<Rightarrow> tensor \<Rightarrow> tensor \<Rightarrow> error + tensor" where
  "fuse fuse_type lateral_features top_down_features =
     ebind (tensor_add lateral_features top_down_features) (\<lambda>prev_features.
     Inr (if fuse_type = ''avg'' then tensor_div2 prev_features else prev_features))"

text \<open>
  The loop of lines 170-184 over the zipped remaining levels: \<open>prev_features\<close> is the
  running top-down feature, and each new result is put in front of \<open>results\<close>. The
  upsampling of line 176 comes before the lateral convolution of line 179.
\<close>

fun top_down ::
  "('n conv2d \<Rightarrow> tensor \<Rightarrow> error + tensor) \<Rightarrow> 'n FPN \<Rightarrow> tensor \<Rightarrow> tensor list
     \<Rightarrow> (tensor \<times> string \<times> string) list \<Rightarrow> error + tensor list" where
  "top_down call self prev_features results [] = Inr results"
| "top_down call self prev_features results ((features, lateral_conv_name, output_conv_name) # rest) =
     ebind (getitem (modules self) lateral_conv_name) (\<lambda>lateral_conv.
     ebind (getitem (modules self) output_conv_name) (\<lambda>output_conv.
     ebind (interpolate prev_features) (\<lambda>top_down_features.
     ebind (call lateral_conv features) (\<lambda>lateral_features.
     ebind (fuse (self_fuse_type self) lateral_features top_down_features) (\<lambda>fused.
     ebind (call output_conv fused) (\<lambda>r.
     top_down call self fused (r # results) rest))))))"

text \<open>Lines 165-184: the pyramid results, from high to low resolution.\<close>

definition pyramid ::
  "('n conv2d \<Rightarrow> tensor \<Rightarrow> error + tensor) \<Rightarrow> 'n FPN \<Rightarrow> (string \<times> tensor) list
     \<Rightarrow> error + tensor list" where
  "pyramid call self bottom_up_features =
     ebind (map_err (getitem bottom_up_features) (rev (in_features self))) (\<lambda>x.
     (case lateral_convs self of
        [] \<Rightarrow> Inl IndexError
      | lateral_conv0 # _ \<Rightarrow>
     (case x of
        [] \<Rightarrow> Inl IndexError
      | x0 # _ \<Rightarrow>
     ebind (call lateral_conv0 x0) (\<lambda>prev_features.
     (case output_convs self of
        [] \<Rightarrow> Inl IndexError
      | output_conv0 # _ \<Rightarrow>
     ebind (call output_conv0 prev_features) (\<lambda>r0.
     top_down call self prev_features [r0]
       (zip (tl x) (zip (tl (lateral_names self)) (tl (output_conv_names self))))))))))"

text \<open>\<^verbatim>\<open>xs.index(x)\<close>: the first position of \<open>x\<close>, \<^verbatim>\<open>ValueError\<close> when there is none.\<close>

fun index_of :: "string list \<Rightarrow> string \<Rightarrow> error + nat" where
  "index_of [] x = Inl ValueError"
| "index_of (y # ys) x = (if y = x then Inr 0 else ebind (index_of ys x) (\<lambda>i. Inr (Suc i)))"

text \<open>
  Lines 187-193: the top block's input is the bottom-up feature of that name and, when
  the bottom-up network has none, the pyramid result at the position of that name among
  the output names.
\<close>

definition top_block_input ::
  "'n FPN \<Rightarrow> (string \<times> tensor) list \<Rightarrow> tensor list \<Rightarrow> 'n top_block \<Rightarrow> error + tensor" where
  "top_block_input self bottom_up_features results tb =
     (case map_of bottom_up_features (in_feature tb) of
        Some top_block_in_feature \<Rightarrow> Inr top_block_in_feature
      | None \<Rightarrow>
          ebind (index_of (self_out_features self) (in_feature tb)) (\<lambda>i.
          if i < length results then Inr (results ! i) else Inl IndexError))"

definition extend_results ::
  "('n conv2d \<Rightarrow> tensor \<Rightarrow> error + tensor) \<Rightarrow> 'n FPN \<Rightarrow> (string \<times> tensor) list \<Rightarrow> tensor list
     \<Rightarrow> error + tensor list" where
  "extend_results call self bottom_up_features results =
     (case top_block self of
        None \<Rightarrow> Inr results
      | Some tb \<Rightarrow>
          ebind (top_block_input self bottom_up_features results tb) (\<lambda>top_block_in_feature.
          ebind (top_block_forward call tb top_block_in_feature) (\<lambda>extra.
          Inr (results @ extra))))"

definition forward ::
  "('n conv2d \<Rightarrow> tensor \<Rightarrow> error + tensor) \<Rightarrow> 'n FPN \<Rightarrow> tensor \<Rightarrow> error + (string \<times> tensor) list" where
  "forward call self x =
     ebind (bb_forward (bottom_up self) x) (\<lambda>bottom_up_features.
     ebind (pyramid call self bottom_up_features) (\<lambda>results0.
     ebind (extend_results call self bottom_up_features results0) (\<lambda>results.
     if length (self_out_features self) \<noteq> length results then Inl (AssertionError '''')
     else
       ebind (getitem bottom_up_features ''res2'') (\<lambda>res2.
       Inr (AList.update ''res2'' res2 (dict (zip (self_out_features self) results)))))))"

subsection \<open>Example inputs\<close>

text \<open>Concrete modules, checkpoints and inputs on which the theorems below are evaluated.\<close>

text \<open>
  The state of an FPN with one level (stride 4, one channel in and out), no
  normalisation, no top block and a bottom-up network without parameters: the weight and
  bias of the two convolutions, all binary32.
\<close>

definition float_param :: "nat list \<Rightarrow> float list \<Rightarrow> param" where
  "float_param sh xs = \<lparr>shape = sh, data = xs, param_dtype = Float32, hook_supplied = False\<rparr>"

definition example_own :: state_dict where
  "example_own =
     [(''fpn_lateral2.weight'', float_param [1, 1, 1, 1] [f32 1]),
      (''fpn_lateral2.bias'', float_param [1] [f32 0]),
      (''fpn_output2.weight'', float_param [1, 1, 3, 3] (replicate 9 (f32 0))),
      (''fpn_output2.bias'', float_param [1] [f32 0])]"

text \<open>
  A checkpoint of a model trained with a normalisation layer in place of the bias of the
  output convolution, and with a head of its own. The bias of the lateral convolution
  is stored in double precision: the double nearest to one tenth.
\<close>

definition example_checkpoint :: checkpoint where
  "example_checkpoint =
     [(''backbone.fpn_lateral2.weight'', \<lparr>shape = [1, 1, 1, 1], data = [f32 3]\<rparr>),
      (''backbone.fpn_lateral2.bias'', \<lparr>shape = [1], data = [Finite 3602879701896397 (- 55)]\<rparr>),
      (''backbone.fpn_output2.weight'', \<lparr>shape = [1, 1, 3, 3], data = map f32 [1, 2, 3, 4, 5, 6, 7, 8, 9]\<rparr>),
      (''backbone.fpn_output2.norm.weight'', \<lparr>shape = [1], data = [f32 1]\<rparr>),
      (''roi_heads.box_head.fc1.weight'', \<lparr>shape = [1, 1], data = [f32 2]\<rparr>)]"

definition example_fs :: "string \<rightharpoonup> pkl_file" where
  "example_fs = [''model.pkl'' \<mapsto> Model example_checkpoint]"

text \<open>
  A single-channel toy bottom-up network with the four levels of a ResNet, strides 4 to
  32; its forward pass returns the features of a 32 by 32 image.
\<close>

definition toy_features :: "(string \<times> tensor) list" where
  "toy_features =
     [(''res2'', full 1 1 8 8 (f32 1)),
      (''res3'', full 1 1 4 4 (f32 2)),
      (''res4'', [[[[f32 1, f32 2], [f32 3, f32 4]]]]),
      (''res5'', [[[[f32 10]]]])]"

definition toy_backbone :: backbone where
  "toy_backbone =
     \<lparr>out_feature_strides = [(''res2'', 4), (''res3'', 8), (''res4'', 16), (''res5'', 32)],
      out_feature_channels = [(''res2'', 1), (''res3'', 1), (''res4'', 1), (''res5'', 1)],
      bb_forward = (\<lambda>x. Inr toy_features)\<rparr>"

text \<open>A bottom-up network whose two lowest levels have strides 32 and 64.\<close>

definition deep_features :: "(string \<times> tensor) list" where
  "deep_features =
     [(''res2'', full 1 1 16 16 (f32 1)),
      (''res5'', [[[[f32 1, f32 2], [f32 3, f32 4]]]]),
      (''res6'', [[[[f32 7]]]])]"

definition deep_backbone :: backbone where
  "deep_backbone =
     \<lparr>out_feature_strides = [(''res2'', 4), (''res5'', 32), (''res6'', 64)],
      out_feature_channels = [(''res2'', 1), (''res5'', 1), (''res6'', 1)],
      bb_forward = (\<lambda>x. Inr deep_features)\<rparr>"

text \<open>A \<^verbatim>\<open>get_norm\<close> that knows only the empty name (no normalisation).\<close>

definition no_norm :: "string \<Rightarrow> int \<Rightarrow> error + unit" where
  "no_norm name c = (if name = '''' then Inr () else Inl (KeyError name))"

text \<open>
  Weights for single-channel features: every stride-1 convolution is the identity and
  every stride-2 convolution keeps the elements at even positions.
\<close>

definition toy_call :: "unit conv2d \<Rightarrow> tensor \<Rightarrow> error + tensor" where
  "toy_call c t = (if conv_stride c = 2 then max_pool2d t 1 2 else Inr t)"

definition toy_image :: tensor where
  "toy_image = full 1 3 32 32 (f32 0)"

text \<open>
  The block \<^verbatim>\<open>LastLevelP6P7(inc, outc)\<close>, and the objects the constructor returns on
  the two lowest levels of these networks, with one output channel and no normalisation.
\<close>

definition toy_p6p7 :: "int \<Rightarrow> int \<Rightarrow> unit top_block" where
  "toy_p6p7 inc outc = projr (LastLevelP6P7_init inc outc)"

definition toy_fpn :: "unit top_block option \<Rightarrow> string \<Rightarrow> unit FPN" where
  "toy_fpn tb fuse_type =
     projr (snd (FPN_init no_norm toy_backbone [''res4'', ''res5''] 1 '''' tb fuse_type))"

definition deep_fpn :: "unit FPN" where
  "deep_fpn =
     projr (snd (FPN_init no_norm deep_backbone [''res5'', ''res6''] 1 ''''
                   (Some LastLevelMaxPool) ''sum''))"

text \<open>
  The object of \<^verbatim>\<open>build_resnet_fpn_backbone\<close> (lines 320-340) on the toy network: all
  four levels, 256 output channels, no normalisation, \<^verbatim>\<open>LastLevelMaxPool\<close>, mode
  \<^verbatim>\<open>sum\<close>.
\<close>

definition resnet_fpn :: "unit FPN" where
  "resnet_fpn =
     projr (snd (FPN_init no_norm toy_backbone [''res2'', ''res3'', ''res4'', ''res5''] 256 ''''
                   (Some LastLevelMaxPool) ''sum''))"

text \<open>The same four levels with the constructor's default, no top block.\<close>

definition plain_fpn :: "unit FPN" where
  "plain_fpn =
     projr (snd (FPN_init no_norm toy_backbone [''res2'', ''res3'', ''res4'', ''res5''] 256 ''''
                   None ''sum''))"

section \<open>Properties\<close>

subsection \<open>Floating-point numbers\<close>

lemma bitlen_0 [simp]: "bitlen 0 = 0"
  by (simp add: bitlen.simps)

lemma bitlen_pos: "0 < n \<Longrightarrow> bitlen n = Suc (bitlen (n div 2))"
  by (subst bitlen.simps) simp

lemma bitlen_eq_0_iff [simp]: "bitlen n = 0 \<longleftrightarrow> n = 0"
  by (subst bitlen.simps) simp

lemma bitlen_double: "0 < n \<Longrightarrow> bitlen (2 * n) = Suc (bitlen n)"
  by (subst bitlen.simps) simp

lemma bitlen_lower: "0 < n \<Longrightarrow> 2 ^ (bitlen n - 1) \<le> n"
proof (induction n rule: bitlen.induct)
  case (1 n)
  show ?case
  proof (cases "n div 2 = 0")
    case True
    with "1.prems" have "n = 1" by (simp add: div_eq_0_iff)
    then show ?thesis by (simp add: bitlen_pos)
  next
    case False
    then have "2 ^ (bitlen (n div 2) - 1) \<le> n div 2"
      using "1.IH" "1.prems" by simp
    moreover have "bitlen (n div 2) \<noteq> 0" using False by simp
    ultimately have "2 ^ bitlen (n div 2) \<le> 2 * (n div 2)"
      by (cases "bitlen (n div 2)") simp_all
    then show ?thesis using "1.prems" by (simp add: bitlen_pos)
  qed
qed

lemma bitlen_abs_double: "m \<noteq> 0 \<Longrightarrow> bitlen (nat \<bar>2 * m\<bar>) = Suc (bitlen (nat \<bar>m\<bar>))"
  using bitlen_double [of "nat \<bar>m\<bar>"] by (simp add: abs_mult nat_mult_distrib)

lemma normalise_0 [simp]: "normalise 0 e = (0, 0)"
  by (simp add: normalise.simps)

lemma normalise_odd: "odd m \<Longrightarrow> normalise m e = (m, e)"
  by (subst normalise.simps) auto

lemma normalise_double: "m \<noteq> 0 \<Longrightarrow> normalise (2 * m) e = normalise m (e + 1)"
  by (subst normalise.simps) simp

text \<open>Rules that evaluate the two recursive functions on literals only.\<close>

lemma bitlen_eval:
  "bitlen (Suc 0) = Suc 0" "bitlen 1 = 1"
  "bitlen (numeral k) = Suc (bitlen (numeral k div 2))"
  by (simp_all add: bitlen_pos)

lemma normalise_eval:
  "normalise 1 e = (1, e)" "normalise (- 1) e = (- 1, e)"
  "normalise (numeral k) e =
     (if even (numeral k :: int) then normalise (numeral k div 2) (e + 1) else (numeral k, e))"
  "normalise (- numeral k) e =
     (if even (numeral k :: int) then normalise (- numeral k div 2) (e + 1) else (- numeral k, e))"
  by (simp_all add: normalise.simps [of "numeral k"] normalise.simps [of "- numeral k"]
      normalise_odd)

lemmas float_eval = float32_def f32_def fadd_def fdiv2_def fless_def fmax_def round32_def
  overflow32_def round_shift_def to_float32_def cast_def bitlen_eval normalise_eval Let_def

lemma round32_0 [simp]: "round32 0 e = Finite 0 0"
  by (simp add: round32_def overflow32_def round_shift_def Let_def)

text \<open>A binary32 number rounds to itself.\<close>

lemma round32_exact: "float32 (Finite m e) \<Longrightarrow> round32 m e = Finite m e"
proof (cases "m = 0")
  case True
  moreover assume "float32 (Finite m e)"
  ultimately show ?thesis by (simp add: float32_def)
next
  case False
  moreover assume "float32 (Finite m e)"
  ultimately have f: "odd m" "- 149 \<le> e" "bitlen (nat \<bar>m\<bar>) \<le> 24"
      "int (bitlen (nat \<bar>m\<bar>)) + e \<le> 128"
    by (simp_all add: float32_def)
  then have "max (- 149) (int (bitlen (nat \<bar>m\<bar>)) + e - 24) \<le> e" by simp
  with f show ?thesis
    by (simp add: round32_def overflow32_def normalise_odd Let_def)
qed

text \<open>The double of a binary32 number below \<open>2 ^ 127\<close> in magnitude is a binary32 number.\<close>

lemma round32_double:
  assumes "float32 (Finite m e)" "m \<noteq> 0" "int (bitlen (nat \<bar>m\<bar>)) + e \<le> 127"
  shows "round32 (2 * m) e = Finite m (e + 1)"
proof -
  from assms have f: "odd m" "- 149 \<le> e" "bitlen (nat \<bar>m\<bar>) \<le> 24"
    by (simp_all add: float32_def)
  let ?b = "int (bitlen (nat \<bar>m\<bar>))"
  have n: "normalise (2 * m) e = (m, e + 1)" "normalise m (e + 1) = (m, e + 1)"
    using assms(2) f(1) by (simp_all add: normalise_double normalise_odd)
  show ?thesis
  proof (cases "max (- 149) (?b + 1 + e - 24) \<le> e")
    case True
    with assms n show ?thesis
      by (simp add: round32_def overflow32_def bitlen_abs_double Let_def)
  next
    case False
    with f have t: "max (- 149) (?b + 1 + e - 24) = e + 1" by simp
    have "round_shift (2 * m) (Suc 0) = m"
      by (simp add: round_shift_def Let_def)
    with assms n t show ?thesis
      by (simp add: round32_def overflow32_def bitlen_abs_double Let_def)
  qed
qed

lemma fadd_self:
  assumes "float32 (Finite m e)" "m \<noteq> 0" "int (bitlen (nat \<bar>m\<bar>)) + e \<le> 127"
  shows "fadd (Finite m e) (Finite m e) = Finite m (e + 1)"
  using round32_double [OF assms] by (simp add: fadd_def)

lemma fdiv2_double: "float32 (Finite m e) \<Longrightarrow> fdiv2 (Finite m (e + 1)) = Finite m e"
  by (simp add: fdiv2_def round32_exact)

lemma float32_double:
  assumes "float32 (Finite m e)" "m \<noteq> 0" "int (bitlen (nat \<bar>m\<bar>)) + e \<le> 127"
  shows "float32 (Finite m (e + 1))"
  using assms by (simp add: float32_def)

lemma float_value_double: "float_value (Finite m (e + 1)) = 2 * float_value (Finite m e)"
  by (simp add: float_value_def powr_add)

lemma value_bound:
  assumes "m \<noteq> 0" "\<bar>float_value (Finite m e)\<bar> < 2 ^ 127"
  shows "int (bitlen (nat \<bar>m\<bar>)) + e \<le> 127"
proof (rule ccontr)
  let ?b = "bitlen (nat \<bar>m\<bar>)"
  assume "\<not> int ?b + e \<le> 127"
  then have big: "127 \<le> int ?b - 1 + e" by simp
  have pos: "0 < nat \<bar>m\<bar>" using assms(1) by simp
  from bitlen_lower [OF pos] have "(2::nat) ^ (?b - 1) \<le> nat \<bar>m\<bar>" .
  then have "real ((2::nat) ^ (?b - 1)) \<le> real (nat \<bar>m\<bar>)" by (rule of_nat_mono)
  then have l: "2 ^ (?b - 1) \<le> \<bar>real_of_int m\<bar>" by simp
  have "?b \<noteq> 0" using pos by simp
  then obtain k where k: "?b = Suc k" by (cases ?b) simp_all
  have "(2::real) powr of_int (int ?b - 1) = 2 ^ (?b - 1)"
    unfolding k using powr_realpow [of "2::real" k] by simp
  with l have "2 powr of_int (int ?b - 1) * 2 powr of_int e \<le> \<bar>real_of_int m\<bar> * 2 powr of_int e"
    by (simp add: mult_right_mono)
  then have "2 powr of_int (int ?b - 1 + e) \<le> \<bar>float_value (Finite m e)\<bar>"
    by (simp add: float_value_def powr_add abs_mult)
  moreover have "(2::real) powr 127 \<le> 2 powr of_int (int ?b - 1 + e)"
    using big by (intro powr_mono) simp_all
  moreover have "(2::real) powr 127 = 2 ^ 127"
    using powr_realpow [of "2::real" 127] by simp
  ultimately show False using assms(2) by simp
qed

subsection \<open>Checkpoint loading\<close>

lemma fold_filter_gen:
  "fold (\<lambda>kv d. if P kv then g kv d else d) xs d0
     = fold (\<lambda>kv d. if P kv then g kv d else d) (filter P xs) d0"
  by (induction xs arbitrary: d0) auto

lemma fold_update_keys:
  "fst ` set (fold (\<lambda>kv d. if P (fst kv) then AList.update (h (fst kv)) (snd kv) d else d) xs d0)
     = fst ` set d0 \<union> h ` {k \<in> fst ` set xs. P k}"
  by (induction xs arbitrary: d0) (auto simp: AList.dom_update)

lemma split_nonempty: "split c s \<noteq> []"
  by (induction s) (auto split: list.splits)

lemma split_first: "split c s ! 0 = takeWhile (\<lambda>x. x \<noteq> c) s"
  by (induction s) (auto split: list.splits simp: split_nonempty)

lemma load_params_keys: "map fst (snd (snd (load_params sd own))) = map fst own"
  by (induction own) (auto split: option.splits sum.splits prod.splits)

lemma load_state_dict_keys: "map fst (snd (load_state_dict own sd strict)) = map fst own"
  using load_params_keys [of sd own]
  by (auto simp: load_state_dict_def Let_def split: prod.splits option.splits)

lemma strict_ok_keys:
  "fst (load_state_dict own sd True) = None \<Longrightarrow> set (map fst sd) \<subseteq> set (map fst own)"
  by (auto simp: load_state_dict_def Let_def filter_empty_conv
           split: prod.splits option.splits if_splits)

lemma report_no_remaining:
  "set ckpt_keys \<subseteq> set own_keys \<Longrightarrow>
     report p own_keys ckpt_keys
       = map (missing_msg p) (missing_keys own_keys ckpt_keys)
         @ (if missing_keys own_keys ckpt_keys = [] then [success_msg p] else [])"
  by (auto simp: report_def remain_keys_def filter_empty_conv)

lemma example_new_checkpoint:
  "new_checkpoint example_checkpoint
     = [(''fpn_lateral2.weight'', \<lparr>shape = [1, 1, 1, 1], data = [f32 3]\<rparr>),
        (''fpn_lateral2.bias'', \<lparr>shape = [1], data = [Finite 3602879701896397 (- 55)]\<rparr>),
        (''fpn_output2.weight'', \<lparr>shape = [1, 1, 3, 3], data = map f32 [1, 2, 3, 4, 5, 6, 7, 8, 9]\<rparr>),
        (''fpn_output2.norm.weight'', \<lparr>shape = [1], data = [f32 1]\<rparr>)]"
  by (simp add: new_checkpoint_def example_checkpoint_def)

lemma one_tenth: "to_float32 (Finite 3602879701896397 (- 55)) = Finite 13421773 (- 27)"
  by (simp add: float_eval)

text \<open>
  Whatever the file system and the checkpoint, \<open>load_pretrain\<close> prints nothing, the
  missing-file line, or lines for missing keys followed by the success line if there were
  none: under \<^verbatim>\<open>strict=True\<close> the loop over the remaining keys runs only over the
  empty set, and the loop over the missing keys only over keys that a load hook supplied.
\<close>

lemma printed_cases:
  "printed (load_pretrain fs own p) = [] \<or>
   printed (load_pretrain fs own p) = [no_checkpoint_msg p] \<or>
   (\<exists>ks. printed (load_pretrain fs own p)
            = map (missing_msg p) ks @ (if ks = [] then [success_msg p] else []))"
proof (cases "pkl_load_model fs p")
  case (Inl e)
  then show ?thesis by (simp add: load_pretrain_def Let_def)
next
  case (Inr c)
  then have ex: "path_exists fs p"
    by (auto simp: pkl_load_model_def path_exists_def split: option.splits pkl_file.splits)
  show ?thesis
  proof (cases "fst (load_state_dict own (new_checkpoint c) True)")
    case None
    then have "set (map fst (new_checkpoint c)) \<subseteq> set (map fst own)"
      by (rule strict_ok_keys)
    then have "set (map fst (new_checkpoint c))
                 \<subseteq> set (map fst (snd (load_state_dict own (new_checkpoint c) True)))"
      by (simp only: load_state_dict_keys)
    from report_no_remaining [OF this, of p] Inr None ex
    have "\<exists>ks. printed (load_pretrain fs own p)
            = map (missing_msg p) ks @ (if ks = [] then [success_msg p] else [])"
      by (simp add: load_pretrain_def Let_def) blast
    then show ?thesis by blast
  next
    case (Some e)
    with Inr ex show ?thesis by (simp add: load_pretrain_def Let_def)
  qed
qed

lemma remaining_msg_distinct:
  "remaining_msg p k \<noteq> success_msg p" "remaining_msg p k \<noteq> no_checkpoint_msg p"
  "remaining_msg p k \<noteq> missing_msg p k'"
  by (simp_all add: remaining_msg_def no_checkpoint_msg_def success_msg_def missing_msg_def)

lemma remaining_not_printed: "remaining_msg p k \<notin> set (printed (load_pretrain fs own p))"
proof -
  consider "printed (load_pretrain fs own p) = []"
    | "printed (load_pretrain fs own p) = [no_checkpoint_msg p]"
    | ks where "printed (load_pretrain fs own p)
            = map (missing_msg p) ks @ (if ks = [] then [success_msg p] else [])"
    using printed_cases [of fs own p] by blast
  then show ?thesis
    by cases (auto simp: remaining_msg_distinct)
qed

text \<open>
  C1. The claim: for a path that does not exist, \<open>load_pretrain\<close> leaves every parameter
  unchanged and returns without raising, printing only a diagnostic. The code prints the
  diagnostic and leaves the parameters alone, but line 210 has no \<^verbatim>\<open>return\<close>: line 212
  opens the path and \<^verbatim>\<open>FileNotFoundError\<close> leaves the method. \<open>fs(model_path := None)\<close>
  is any file system in which the path does not exist.
\<close>

theorem load_pretrain_missing_file_raises:
  "load_pretrain (fs(model_path := None)) own model_path =
     \<lparr>raised = Some (FileNotFoundError model_path), params = own,
      printed = [no_checkpoint_msg model_path]\<rparr>"
  by (simp add: load_pretrain_def pkl_load_model_def path_exists_def)

text \<open>
  C2. The claim: a checkpoint whose stripped names differ from the module's does not make
  \<open>load_pretrain\<close> fail; the differences are printed as warnings and loading proceeds.
  Lines 223-231 are written for that, and the sibling \<^verbatim>\<open>load_bottom_up_pretrain\<close>
  loads with \<^verbatim>\<open>strict=False\<close>; but line 219 loads with \<^verbatim>\<open>strict=True\<close>. With the
  module \<open>example_own\<close> and a checkpoint that lacks the bias of the output convolution and
  has a normalisation weight instead, the three matching entries are copied (the bias of
  the lateral convolution rounded to binary32), \<^verbatim>\<open>load_state_dict\<close> raises, and
  neither the missing nor the remaining key is printed.
\<close>

theorem load_pretrain_mismatch_is_fatal:
  "load_pretrain example_fs example_own ''model.pkl'' =
     \<lparr>raised = Some RuntimeError,
      params =
        [(''fpn_lateral2.weight'', float_param [1, 1, 1, 1] [f32 3]),
         (''fpn_lateral2.bias'', float_param [1] [Finite 13421773 (- 27)]),
         (''fpn_output2.weight'', float_param [1, 1, 3, 3] (map f32 [1, 2, 3, 4, 5, 6, 7, 8, 9])),
         (''fpn_output2.bias'', float_param [1] [f32 0])],
      printed = []\<rparr> \<and>
   missing_keys (map fst example_own) (map fst (new_checkpoint example_checkpoint))
     = [''fpn_output2.bias''] \<and>
   remain_keys (map fst example_own) (map fst (new_checkpoint example_checkpoint))
     = [''fpn_output2.norm.weight'']"
  by (simp add: load_pretrain_def pkl_load_model_def path_exists_def example_fs_def
      example_new_checkpoint load_state_dict_def example_own_def load_param_def copy_param_def
      float_param_def missing_keys_def remain_keys_def float_eval)

text \<open>
  C10. In \<open>load_pretrain\<close> the entries whose first dotted segment is not
  \<^verbatim>\<open>backbone\<close> are dropped before any name is matched: the stripped checkpoint is the
  one built from the retained entries alone, its keys are the retained keys without their
  first nine characters, the whole outcome of the load (exception, parameters, printed
  lines) is the same with and without the dropped entries, the remaining keys are
  computed among the stripped retained keys, and no remaining-key line is ever printed.
\<close>

theorem load_pretrain_discards_non_backbone:
  "new_checkpoint checkpoint
     = new_checkpoint (filter (\<lambda>kv. split CHR ''.'' (fst kv) ! 0 = ''backbone'') checkpoint) \<and>
   fst ` set (new_checkpoint checkpoint)
     = drop 9 ` {k \<in> fst ` set checkpoint. split CHR ''.'' k ! 0 = ''backbone''} \<and>
   load_pretrain (fs(model_path \<mapsto> Model checkpoint)) own model_path
     = load_pretrain
         (fs(model_path \<mapsto>
               Model (filter (\<lambda>kv. split CHR ''.'' (fst kv) ! 0 = ''backbone'') checkpoint)))
         own model_path \<and>
   set (remain_keys own_keys (map fst (new_checkpoint checkpoint)))
     \<subseteq> drop 9 ` {k \<in> fst ` set checkpoint. split CHR ''.'' k ! 0 = ''backbone''} \<and>
   remaining_msg model_path k
     \<notin> set (printed (load_pretrain (fs(model_path \<mapsto> Model checkpoint)) own model_path))"
proof -
  let ?P = "\<lambda>kv::string \<times> ndarray. split CHR ''.'' (fst kv) ! 0 = ''backbone''"
  have 1: "new_checkpoint checkpoint = new_checkpoint (filter ?P checkpoint)"
    unfolding new_checkpoint_def by (rule fold_filter_gen)
  have 2: "fst ` set (new_checkpoint checkpoint)
     = drop 9 ` {k \<in> fst ` set checkpoint. split CHR ''.'' k ! 0 = ''backbone''}"
    unfolding new_checkpoint_def
    using fold_update_keys [of "\<lambda>k. split CHR ''.'' k ! 0 = ''backbone''" "drop 9" checkpoint "[]"]
    by simp
  have 3: "load_pretrain (fs(model_path \<mapsto> Model checkpoint)) own model_path
     = load_pretrain (fs(model_path \<mapsto> Model (filter ?P checkpoint))) own model_path"
    using 1 by (simp add: load_pretrain_def pkl_load_model_def path_exists_def)
  have 4: "set (remain_keys own_keys (map fst (new_checkpoint checkpoint)))
     \<subseteq> drop 9 ` {k \<in> fst ` set checkpoint. split CHR ''.'' k ! 0 = ''backbone''}"
    using 2 by (auto simp: remain_keys_def)
  have 5: "remaining_msg model_path k
     \<notin> set (printed (load_pretrain (fs(model_path \<mapsto> Model checkpoint)) own model_path))"
    by (rule remaining_not_printed)
  from 1 2 3 4 5 show ?thesis by (intro conjI)
qed

subsection \<open>Exceptions, dictionaries, strings\<close>

lemma ebind_Inr_iff: "ebind m f = Inr y \<longleftrightarrow> (\<exists>v. m = Inr v \<and> f v = Inr y)"
  by (cases m) (simp_all add: ebind_def)

lemma ebind_Inr [simp]: "ebind (Inr v) f = f v"
  by (simp add: ebind_def)

lemma ebind_Inl [simp]: "ebind (Inl e) f = Inl e"
  by (simp add: ebind_def)

lemma map_err_Inr_iff:
  "map_err f xs = Inr ys \<longleftrightarrow> length ys = length xs \<and> (\<forall>i < length xs. f (xs ! i) = Inr (ys ! i))"
proof (induction xs arbitrary: ys)
  case Nil
  then show ?case by auto
next
  case (Cons x xs)
  show ?case
  proof (cases ys)
    case Nil
    then show ?thesis by (auto simp: ebind_Inr_iff)
  next
    case (Cons y ys')
    then show ?thesis
      using Cons.IH [of ys'] by (auto simp: ebind_Inr_iff nth_Cons' less_Suc_eq_0_disj)
  qed
qed

lemma map_err_length: "map_err f xs = Inr ys \<Longrightarrow> length ys = length xs"
  by (simp add: map_err_Inr_iff)

lemma map_err_Inr_map: "(\<And>x. x \<in> set xs \<Longrightarrow> f x = Inr (g x)) \<Longrightarrow> map_err f xs = Inr (map g xs)"
  by (induction xs) simp_all

lemma update_new: "k \<notin> fst ` set d \<Longrightarrow> AList.update k v d = d @ [(k, v)]"
  by (induction d) auto

lemma fold_update_distinct:
  "distinct (map fst d0 @ map fst kvs) \<Longrightarrow>
     fold (\<lambda>kv d. AList.update (fst kv) (snd kv) d) kvs d0 = d0 @ kvs"
proof (induction kvs arbitrary: d0)
  case Nil
  then show ?case by simp
next
  case (Cons kv kvs)
  then have "AList.update (fst kv) (snd kv) d0 = d0 @ [kv]"
    by (intro update_new [THEN trans]) auto
  moreover have "distinct (map fst (d0 @ [kv]) @ map fst kvs)"
    using Cons.prems by auto
  ultimately show ?case using Cons.IH [of "d0 @ [kv]"] by simp
qed

lemma dict_distinct: "distinct (map fst kvs) \<Longrightarrow> dict kvs = kvs"
  using fold_update_distinct [of "[]" kvs] by (simp add: dict_def)

lemma map_of_dict_gen:
  "map_of (fold (\<lambda>kv d. AList.update (fst kv) (snd kv) d) kvs d0) = map_of d0 ++ map_of (rev kvs)"
  by (induction kvs arbitrary: d0) (simp_all add: update_conv' map_add_upd_left fun_eq_iff map_add_def split: option.splits)

lemma map_of_dict: "map_of (dict kvs) = map_of (rev kvs)"
  by (simp add: dict_def map_of_dict_gen)

lemma str_nat_nonempty: "str_nat n \<noteq> []"
  by (subst str_nat.simps) simp

lemma digit_inj: "a < 10 \<Longrightarrow> b < 10 \<Longrightarrow> digit a = digit b \<Longrightarrow> a = b"
proof -
  assume "a < 10" "b < 10" "digit a = digit b"
  moreover have "distinct ''0123456789''" by simp
  ultimately show ?thesis
    unfolding digit_def by (simp add: nth_eq_iff_index_eq)
qed

lemma str_nat_inj: "str_nat n = str_nat m \<Longrightarrow> n = m"
proof (induction n arbitrary: m rule: str_nat.induct)
  case (1 n)
  show ?case
  proof (cases "n < 10")
    case True
    then have n: "str_nat n = [digit n]" by (subst str_nat.simps) simp
    show ?thesis
    proof (cases "m < 10")
      case mt: True
      then have "str_nat m = [digit m]" by (subst str_nat.simps) simp
      with n "1.prems" True mt show ?thesis by (auto dest: digit_inj)
    next
      case False
      then have "str_nat m = str_nat (m div 10) @ [digit (m mod 10)]"
        by (subst str_nat.simps) simp
      with n "1.prems" show ?thesis by (simp add: str_nat_nonempty)
    qed
  next
    case False
    then have n: "str_nat n = str_nat (n div 10) @ [digit (n mod 10)]"
      by (subst str_nat.simps) simp
    show ?thesis
    proof (cases "m < 10")
      case True
      then have "str_nat m = [digit m]" by (subst str_nat.simps) simp
      with n "1.prems" show ?thesis
        by (metis append_is_Nil_conv butlast.simps(2) butlast_snoc str_nat_nonempty)
    next
      case mf: False
      then have "str_nat m = str_nat (m div 10) @ [digit (m mod 10)]"
        by (subst str_nat.simps) simp
      with n "1.prems" have "str_nat (n div 10) = str_nat (m div 10)" "digit (n mod 10) = digit (m mod 10)"
        by simp_all
      then have "n div 10 = m div 10" and "n mod 10 = m mod 10"
        using "1.IH" [OF False] digit_inj [of "n mod 10" "m mod 10"] by simp_all
      then show ?thesis by (metis div_mult_mod_eq)
    qed
  qed
qed

lemma ilog2_double: "0 < n \<Longrightarrow> ilog2 (2 * n) = Suc (ilog2 n)"
  by (subst ilog2.simps) simp

lemma ilog2_power: "ilog2 (2 ^ k) = k"
proof (induction k)
  case 0
  then show ?case by (subst ilog2.simps) simp
next
  case (Suc k)
  then show ?case using ilog2_double [of "2 ^ k"] by simp
qed

subsection \<open>Evaluation on the example inputs\<close>

lemma ilog2_numerals:
  "ilog2 4 = 2" "ilog2 8 = 3" "ilog2 16 = 4" "ilog2 32 = 5" "ilog2 64 = 6"
  by (simp_all add: ilog2.simps)

lemma str_nat_digits:
  "str_nat 2 = ''2''" "str_nat 3 = ''3''" "str_nat 4 = ''4''" "str_nat 5 = ''5''"
  "str_nat 6 = ''6''" "str_nat 7 = ''7''" "str_nat 8 = ''8''"
  by (simp_all add: str_nat.simps digit_def)

lemmas eval_defs = FPN_init_def finish_init_def pyramid_strides_def top_block_strides_def
  getitem_def dict_def int_log2_def no_levels_def no_norm_def ebind_def
  lateral_Conv2d_def output_Conv2d_def Conv2d_init_def
  ilog2_numerals str_nat_digits enumerate_eq_zip upt_rec Let_def

lemma toy_fpn_fields:
  "ft = ''avg'' \<or> ft = ''sum'' \<Longrightarrow>
     snd (FPN_init no_norm toy_backbone [''res4'', ''res5''] 1 '''' tb ft) = Inr (toy_fpn tb ft)"
  by (auto simp add: toy_fpn_def toy_backbone_def eval_defs split: option.splits)

lemmas fwd_defs = forward_def pyramid_def extend_results_def top_block_input_def fuse_def
  tensor_add_def broadcast_def interpolate_def repeat2_def max_pool2d_def max_pool_plane_def
  pool_size_def window_def maximum_def toy_call_def toy_features_def relu_def tensor_div2_def float_eval
  nn_Conv2d_def toy_p6p7_def LastLevelP6P7_init_def Conv2d_object_def

lemma toy_maxpool_sum:
  "forward toy_call (toy_fpn (Some LastLevelMaxPool) ''sum'') toy_image =
     Inr [(''p4'', [[[[f32 11, f32 12], [f32 13, f32 14]]]]), (''p5'', [[[[f32 10]]]]), (''p6'', [[[[f32 10]]]]),
          (''res2'', full 1 1 8 8 (f32 1))]"
  by (simp add: toy_fpn_def toy_backbone_def eval_defs fwd_defs)

lemma toy_p6p7_avg:
  "forward toy_call (toy_fpn (Some (toy_p6p7 1 1)) ''avg'') toy_image =
     Inr [(''p4'', [[[[fdiv2 (f32 11), f32 6], [fdiv2 (f32 13), f32 7]]]]), (''p5'', [[[[f32 10]]]]), (''p6'', [[[[f32 10]]]]), (''p7'', [[[[f32 10]]]]),
          (''res2'', full 1 1 8 8 (f32 1))]"
  by (simp add: toy_fpn_def toy_backbone_def eval_defs fwd_defs)

lemma deep_eval:
  "forward toy_call deep_fpn toy_image =
     Inr [(''p5'', [[[[f32 8, f32 9], [f32 10, f32 11]]]]), (''p6'', [[[[f32 7]]]]), (''p7'', [[[[f32 8]]]]),
          (''res2'', full 1 1 16 16 (f32 1))]"
  by (simp add: deep_fpn_def deep_backbone_def deep_features_def eval_defs fwd_defs)

subsection \<open>Fusion\<close>

lemma map_err_replicate: "f x = Inr y \<Longrightarrow> map_err f (replicate n x) = Inr (replicate n y)"
  by (induction n) simp_all

lemma broadcast_replicate:
  "f a b = Inr r \<Longrightarrow> broadcast f (replicate n a) (replicate n b) = Inr (replicate n r)"
  by (simp add: broadcast_def zip_replicate map_err_replicate)

lemma tensor_add_full:
  "tensor_add (full n ch h w c) (full n ch h w d) = Inr (full n ch h w (fadd c d))"
  unfolding tensor_add_def full_def
  by (intro broadcast_replicate) simp

lemma tensor_div2_full: "tensor_div2 (full n ch h w c) = full n ch h w (fdiv2 c)"
  by (simp add: tensor_div2_def full_def)

lemma fuse_full:
  "fuse ''avg'' (full n ch h w c) (full n ch h w c) = Inr (full n ch h w (fdiv2 (fadd c c)))"
  "fuse ''sum'' (full n ch h w c) (full n ch h w c) = Inr (full n ch h w (fadd c c))"
  by (simp_all add: fuse_def tensor_add_full tensor_div2_full)

text \<open>
  C6, as stated: at a fusion step whose two tensors have one shape and the constant value
  \<open>c\<close>, the fused tensor is the constant \<open>c\<close> in mode \<^verbatim>\<open>avg\<close>. It is false for the
  binary32 number \<open>c = 2 ^ 127\<close>: line 181 forms \<open>c + c\<close> first, which overflows to
  infinity, and the division of line 183 leaves it there.
\<close>

theorem fuse_constant_overflow:
  "float32 (Finite 1 127) \<and>
   float_value (Finite 1 127) = 2 ^ 127 \<and>
   fuse ''avg'' (full 1 1 1 1 (Finite 1 127)) (full 1 1 1 1 (Finite 1 127))
     = Inr (full 1 1 1 1 PInf) \<and>
   full 1 1 1 1 PInf \<noteq> full 1 1 1 1 (Finite 1 127)"
proof -
  have "(2::real) powr 127 = 2 ^ 127"
    using powr_realpow [of "2::real" 127] by simp
  then have "float_value (Finite 1 127) = 2 ^ 127"
    by (simp add: float_value_def)
  moreover have "float32 (Finite 1 127)"
    by (simp add: float_eval)
  moreover have "fdiv2 (fadd (Finite 1 127) (Finite 1 127)) = PInf"
    by (simp add: float_eval)
  ultimately show ?thesis
    by (simp add: fuse_full) (simp add: full_def)
qed

text \<open>
  C6, amended: for a binary32 constant \<open>c\<close> of magnitude below \<open>2 ^ 127\<close>, so that
  \<open>c + c\<close> does not overflow, and two tensors of one shape \<open>(n, ch, h, w)\<close> with that
  constant value, the fused tensor (the input of the output convolution) is the constant
  \<open>c\<close> in mode \<^verbatim>\<open>avg\<close>, and in mode \<^verbatim>\<open>sum\<close> the constant binary32 number whose
  value is \<open>2 * c\<close>.
\<close>

theorem fuse_constant_in_range:
  assumes "float32 (Finite m e)" and "\<bar>float_value (Finite m e)\<bar> < 2 ^ 127"
  shows "fuse ''avg'' (full n ch h w (Finite m e)) (full n ch h w (Finite m e))
           = Inr (full n ch h w (Finite m e)) \<and>
         (\<exists>m2 e2.
            fuse ''sum'' (full n ch h w (Finite m e)) (full n ch h w (Finite m e))
              = Inr (full n ch h w (Finite m2 e2)) \<and>
            float32 (Finite m2 e2) \<and>
            float_value (Finite m2 e2) = 2 * float_value (Finite m e))"
proof (cases "m = 0")
  case True
  with assms(1) have "e = 0" by (simp add: float32_def)
  with True have "fadd (Finite m e) (Finite m e) = Finite 0 0"
      "fdiv2 (Finite 0 0) = Finite m e" "float32 (Finite 0 0)"
      "float_value (Finite 0 0) = 2 * float_value (Finite m e)"
    by (simp_all add: fadd_def fdiv2_def float32_def float_value_def)
  then show ?thesis by (simp add: fuse_full) blast
next
  case False
  then have small: "int (bitlen (nat \<bar>m\<bar>)) + e \<le> 127"
    using assms(2) by (rule value_bound)
  have "fadd (Finite m e) (Finite m e) = Finite m (e + 1)"
    using assms(1) False small by (rule fadd_self)
  moreover have "fdiv2 (Finite m (e + 1)) = Finite m e"
    using assms(1) by (rule fdiv2_double)
  moreover have "float32 (Finite m (e + 1))"
    using assms(1) False small by (rule float32_double)
  moreover have "float_value (Finite m (e + 1)) = 2 * float_value (Finite m e)"
    by (rule float_value_double)
  ultimately show ?thesis by (simp add: fuse_full) blast
qed

theorem fuse_constant_in_range_witness:
  "float32 (Finite 3 0) \<and>
   \<bar>float_value (Finite 3 0)\<bar> < 2 ^ 127 \<and>
   fuse ''avg'' (full 1 1 2 2 (Finite 3 0)) (full 1 1 2 2 (Finite 3 0))
     = Inr (full 1 1 2 2 (Finite 3 0)) \<and>
   fuse ''sum'' (full 1 1 2 2 (Finite 3 0)) (full 1 1 2 2 (Finite 3 0))
     = Inr (full 1 1 2 2 (Finite 3 1)) \<and>
   float_value (Finite 3 1) = 2 * float_value (Finite 3 0)"
proof -
  have a: "float32 (Finite 3 0)"
    by (simp add: float_eval)
  have b: "\<bar>float_value (Finite 3 0)\<bar> < 2 ^ 127"
    by (simp add: float_value_def)
  have c: "fuse ''sum'' (full 1 1 2 2 (Finite 3 0)) (full 1 1 2 2 (Finite 3 0))
             = Inr (full 1 1 2 2 (Finite 3 1))"
    by (simp add: fuse_full float_eval)
  from fuse_constant_in_range [OF a b, of 1 1 2 2] a b c show ?thesis
    by (simp add: float_value_def)
qed

subsection \<open>The forward pass\<close>

lemma forward_Inr:
  assumes "forward call self x = Inr outputs"
  obtains bottom_up_features results0 results res2 where
    "bb_forward (bottom_up self) x = Inr bottom_up_features"
    "pyramid call self bottom_up_features = Inr results0"
    "extend_results call self bottom_up_features results0 = Inr results"
    "length (self_out_features self) = length results"
    "map_of bottom_up_features ''res2'' = Some res2"
    "outputs = AList.update ''res2'' res2 (dict (zip (self_out_features self) results))"
  using assms unfolding forward_def
  by (auto simp: ebind_Inr_iff getitem_def split: if_splits option.splits)

text \<open>
  C4. Whenever \<open>forward\<close> returns a mapping, for any object (with or without a top block,
  of any variant), any weights and any input, the mapping holds under the fixed name
  \<^verbatim>\<open>res2\<close> exactly the tensor the bottom-up network returned under that name.
\<close>

theorem forward_keeps_res2:
  assumes "forward call self x = Inr outputs"
  shows "\<exists>bottom_up_features res2.
           bb_forward (bottom_up self) x = Inr bottom_up_features \<and>
           map_of bottom_up_features ''res2'' = Some res2 \<and>
           map_of outputs ''res2'' = Some res2"
  using assms by (elim forward_Inr) (simp add: update_conv')

theorem forward_keeps_res2_witness:
  "forward toy_call (toy_fpn (Some LastLevelMaxPool) ''sum'') toy_image =
     Inr [(''p4'', [[[[f32 11, f32 12], [f32 13, f32 14]]]]), (''p5'', [[[[f32 10]]]]), (''p6'', [[[[f32 10]]]]),
          (''res2'', full 1 1 8 8 (f32 1))] \<and>
   map_of toy_features ''res2'' = Some (full 1 1 8 8 (f32 1)) \<and>
   map_of [(''p4'', [[[[f32 11, f32 12], [f32 13, f32 14]]]]), (''p5'', [[[[f32 10]]]]), (''p6'', [[[[f32 10]]]]),
           (''res2'', full 1 1 8 8 (f32 1))] ''res2'' = Some (full 1 1 8 8 (f32 1))"
  using forward_keeps_res2 [OF toy_maxpool_sum] toy_maxpool_sum
  by (simp add: toy_features_def)

subsection \<open>Construction\<close>

lemma contiguous_iff:
  "assert_strides_are_log2_contiguous ss = Inr () \<longleftrightarrow>
     (\<forall>i. 0 < i \<and> i < length ss \<longrightarrow> ss ! i = 2 * ss ! (i - 1))"
proof (induction ss rule: assert_strides_are_log2_contiguous.induct)
  case (1 prev stride strides)
  show ?case
  proof (cases "stride = 2 * prev")
    case True
    have "(\<forall>i. 0 < i \<and> i < length (prev # stride # strides) \<longrightarrow>
             (prev # stride # strides) ! i = 2 * (prev # stride # strides) ! (i - 1))
          \<longleftrightarrow> (\<forall>i. 0 < i \<and> i < length (stride # strides) \<longrightarrow>
             (stride # strides) ! i = 2 * (stride # strides) ! (i - 1))"
      (is "?L \<longleftrightarrow> ?R")
    proof
      assume l: ?L
      show ?R
      proof (intro allI impI)
        fix i assume "0 < i \<and> i < length (stride # strides)"
        then show "(stride # strides) ! i = 2 * (stride # strides) ! (i - 1)"
          using l [rule_format, of "Suc i"] by simp
      qed
    next
      assume r: ?R
      show ?L
      proof (intro allI impI)
        fix i assume i: "0 < i \<and> i < length (prev # stride # strides)"
        show "(prev # stride # strides) ! i = 2 * (prev # stride # strides) ! (i - 1)"
        proof (cases "i = 1")
          case True
          then show ?thesis using \<open>stride = 2 * prev\<close> by simp
        next
          case False
          with i obtain j where j: "i = Suc j" "0 < j" by (cases i) auto
          with i r [rule_format, of j] show ?thesis by (simp add: nth_Cons')
        qed
      qed
    qed
    with True 1 show ?thesis by simp
  next
    case False
    have "\<not> (\<forall>i. 0 < i \<and> i < length (prev # stride # strides) \<longrightarrow>
             (prev # stride # strides) ! i = 2 * (prev # stride # strides) ! (i - 1))"
    proof
      assume "\<forall>i. 0 < i \<and> i < length (prev # stride # strides) \<longrightarrow>
             (prev # stride # strides) ! i = 2 * (prev # stride # strides) ! (i - 1)"
      from this [rule_format, of 1] False show False by simp
    qed
    with False show ?thesis by simp
  qed
qed simp_all

lemma not_contiguous_error:
  "assert_strides_are_log2_contiguous ss \<noteq> Inr () \<Longrightarrow>
     \<exists>stride prev. assert_strides_are_log2_contiguous ss = Inl (AssertionError (not_contiguous_msg stride prev))"
  by (induction ss rule: assert_strides_are_log2_contiguous.induct) (auto split: if_splits)

text \<open>
  C8. If the strides of the selected input features are not log2-contiguous (some stride
  is not twice its predecessor), the constructor fails and has created no convolution;
  the exception is the \<^verbatim>\<open>AssertionError\<close> of line 263 whenever the channel counts of
  the features could be looked up (line 71 comes before the check).
\<close>

theorem noncontiguous_strides_rejected:
  assumes "map_err (getitem (out_feature_strides bu)) in_feats = Inr in_strides"
    and "\<exists>i. 0 < i \<and> i < length in_strides \<and> in_strides ! i \<noteq> 2 * in_strides ! (i - 1)"
  shows "fst (FPN_init get_norm bu in_feats outc norm_name tb fuse_type) = [] \<and>
         (\<exists>e. snd (FPN_init get_norm bu in_feats outc norm_name tb fuse_type) = Inl e) \<and>
         (\<forall>in_chans. map_err (getitem (out_feature_channels bu)) in_feats = Inr in_chans \<longrightarrow>
            (\<exists>stride prev. snd (FPN_init get_norm bu in_feats outc norm_name tb fuse_type)
                = Inl (AssertionError (not_contiguous_msg stride prev))))"
proof -
  have "assert_strides_are_log2_contiguous in_strides \<noteq> Inr ()"
    using assms(2) by (auto simp: contiguous_iff)
  then obtain stride prev where
    "assert_strides_are_log2_contiguous in_strides
       = Inl (AssertionError (not_contiguous_msg stride prev))"
    using not_contiguous_error by blast
  with assms(1) show ?thesis
    by (auto simp: FPN_init_def split: sum.splits)
qed

theorem noncontiguous_strides_rejected_witness:
  "FPN_init no_norm toy_backbone [''res2'', ''res3'', ''res5''] 256 ''''
       (Some LastLevelMaxPool) ''sum''
     = ([], Inl (AssertionError ''Strides 32 8 are not log2 contiguous''))"
proof -
  have a: "map_err (getitem (out_feature_strides toy_backbone)) [''res2'', ''res3'', ''res5'']
             = Inr [4, 8, 32]"
    by (simp add: toy_backbone_def getitem_def)
  have b: "\<exists>i. 0 < i \<and> i < length [4, 8, 32 :: int]
                \<and> [4, 8, 32 :: int] ! i \<noteq> 2 * [4, 8, 32] ! (i - 1)"
    by (rule exI [of _ 2]) simp
  have c: "map_err (getitem (out_feature_channels toy_backbone)) [''res2'', ''res3'', ''res5'']
             = Inr [1, 1, 1]"
    by (simp add: toy_backbone_def getitem_def)
  have d: "not_contiguous_msg 32 8 = ''Strides 32 8 are not log2 contiguous''"
    by (simp add: not_contiguous_msg_def str_int_def str_nat.simps digit_def)
  have e: "snd (FPN_init no_norm toy_backbone [''res2'', ''res3'', ''res5''] 256 ''''
                 (Some LastLevelMaxPool) ''sum'')
            = Inl (AssertionError ''Strides 32 8 are not log2 contiguous'')"
    unfolding FPN_init_def a c by (simp add: d)
  from noncontiguous_strides_rejected
         [OF a b, of no_norm 256 "''''" "Some LastLevelMaxPool" "''sum''"] e
  show ?thesis
    by (simp add: prod_eq_iff)
qed

subsection \<open>What the constructor builds\<close>

lemma build_levels_stage:
  "build_levels gn nm outc strides (enumerate n cs) st = (None, st') \<Longrightarrow> cs \<noteq> [] \<Longrightarrow>
     lv_stage st' = Some (ilog2 (nat (strides ! (n + length cs - 1))))"
proof (induction cs arbitrary: n st)
  case Nil
  then show ?case by simp
next
  case (Cons c cs)
  from Cons.prems(1) obtain nl stage st1 where
    st1: "int_log2 (strides ! n) = Inr stage"
         "build_levels gn nm outc strides (enumerate (Suc n) cs) st1 = (None, st')"
         "lv_stage st1 = Some stage"
    by (auto simp: Let_def split: sum.splits)
  show ?case
  proof (cases "cs = []")
    case True
    with st1 show ?thesis by (auto simp: int_log2_def split: if_splits)
  next
    case False
    from Cons.IH [OF st1(2) False] show ?thesis by simp
  qed
qed

lemma pyramid_strides_Inr:
  assumes "pyramid_strides in_strides = Inr pyr"
  shows "(\<forall>s\<in>set in_strides. 0 < s) \<and>
         pyr = dict (map (\<lambda>s. (''p'' @ str_nat (ilog2 (nat s)), s)) in_strides)"
proof -
  from assms obtain kvs where kvs:
    "map_err (\<lambda>s. ebind (int_log2 s) (\<lambda>stage. Inr (''p'' @ str_nat stage, s))) in_strides = Inr kvs"
    "pyr = dict kvs"
    by (auto simp: pyramid_strides_def ebind_Inr_iff)
  have len: "length kvs = length in_strides"
    and each: "\<And>i. i < length in_strides \<Longrightarrow>
      ebind (int_log2 (in_strides ! i)) (\<lambda>stage. Inr (''p'' @ str_nat stage, in_strides ! i))
        = Inr (kvs ! i)"
    using kvs(1) by (simp_all add: map_err_Inr_iff)
  have pos: "\<forall>s\<in>set in_strides. 0 < s"
  proof
    fix s assume "s \<in> set in_strides"
    then obtain i where "i < length in_strides" "in_strides ! i = s"
      by (auto simp: in_set_conv_nth)
    with each [of i] show "0 < s"
      by (auto simp: ebind_Inr_iff int_log2_def split: if_splits)
  qed
  have "kvs = map (\<lambda>s. (''p'' @ str_nat (ilog2 (nat s)), s)) in_strides"
  proof (rule nth_equalityI)
    show "length kvs = length (map (\<lambda>s. (''p'' @ str_nat (ilog2 (nat s)), s)) in_strides)"
      using len by simp
  next
    fix i assume "i < length kvs"
    with len each [of i] show "kvs ! i = map (\<lambda>s. (''p'' @ str_nat (ilog2 (nat s)), s)) in_strides ! i"
      by (auto simp: ebind_Inr_iff int_log2_def split: if_splits)
  qed
  with pos kvs(2) show ?thesis by simp
qed

lemma contiguous_stages:
  "assert_strides_are_log2_contiguous ss = Inr () \<Longrightarrow> \<forall>s\<in>set ss. 0 < s \<Longrightarrow> ss \<noteq> [] \<Longrightarrow>
     map (\<lambda>s. ilog2 (nat s)) ss = [ilog2 (nat (hd ss))..<ilog2 (nat (hd ss)) + length ss]"
proof (induction ss rule: assert_strides_are_log2_contiguous.induct)
  case (1 prev stride strides)
  then have eq: "stride = 2 * prev" and rest: "assert_strides_are_log2_contiguous (stride # strides) = Inr ()"
    by (auto split: if_splits)
  from "1.prems" have "0 < prev" by simp
  then have "ilog2 (nat stride) = Suc (ilog2 (nat prev))"
    using ilog2_double [of "nat prev"] eq by (simp add: nat_mult_distrib)
  moreover have "map (\<lambda>s. ilog2 (nat s)) (stride # strides)
      = [ilog2 (nat stride)..<ilog2 (nat stride) + length (stride # strides)]"
    using "1.IH" [OF eq rest] "1.prems" by simp
  moreover have "[ilog2 (nat prev)..<ilog2 (nat prev) + length (prev # stride # strides)]
      = ilog2 (nat prev) # [Suc (ilog2 (nat prev))..<Suc (ilog2 (nat prev)) + length (stride # strides)]"
    by (subst upt_rec) simp
  ultimately show ?case
    by (simp del: upt_Suc)
qed (simp_all add: upt_rec)

lemma p_names_distinct: "distinct (map (\<lambda>j. ''p'' @ str_nat j) [a..<b])"
  by (auto simp: distinct_map inj_on_def dest: str_nat_inj)

lemma map_shift_upt: "map (\<lambda>s. f (Suc s)) [a..<a + m] = map f [Suc a..<Suc a + m]"
  by (induction m) simp_all

lemma top_block_strides_append:
  assumes "fst ` set d \<subseteq> (\<lambda>j. ''p'' @ str_nat j) ` {..stage}" "distinct (map fst d)"
  shows "top_block_strides stage m d
           = d @ map (\<lambda>j. (''p'' @ str_nat j, 2 ^ j)) [Suc stage..<Suc stage + m]"
proof -
  let ?g = "\<lambda>s::nat. (''p'' @ str_nat (s + 1), 2 ^ (s + 1) :: int)"
  have "top_block_strides stage m d
          = fold (\<lambda>kv d. AList.update (fst kv) (snd kv) d) (map ?g [stage..<stage + m]) d"
    by (simp add: top_block_strides_def fold_map comp_def)
  also have "\<dots> = d @ map ?g [stage..<stage + m]"
  proof (rule fold_update_distinct)
    have "distinct (map fst (map ?g [stage..<stage + m]))"
      by (auto simp: distinct_map inj_on_def comp_def dest: str_nat_inj)
    moreover have "set (map fst d) \<inter> set (map fst (map ?g [stage..<stage + m])) = {}"
    proof (rule ccontr)
      assume "set (map fst d) \<inter> set (map fst (map ?g [stage..<stage + m])) \<noteq> {}"
      then obtain key where "key \<in> fst ` set d" "key \<in> set (map fst (map ?g [stage..<stage + m]))"
        by auto
      then obtain j s where "j \<le> stage" "key = ''p'' @ str_nat j"
          "stage \<le> s" "key = ''p'' @ str_nat (s + 1)"
        using assms(1) by auto
      then have "j = s + 1" by (auto dest: str_nat_inj)
      with \<open>j \<le> stage\<close> \<open>stage \<le> s\<close> show False by simp
    qed
    ultimately show "distinct (map fst d @ map fst (map ?g [stage..<stage + m]))"
      using assms(2) by simp
  qed
  also have "map ?g [stage..<stage + m] = map (\<lambda>j. (''p'' @ str_nat j, 2 ^ j)) [Suc stage..<Suc stage + m]"
    using map_shift_upt [of "\<lambda>j. (''p'' @ str_nat j, 2 ^ j)" stage m] by simp
  finally show ?thesis .
qed

lemma FPN_init_Inr:
  assumes "snd (FPN_init gn bu in_feats outc nm tb ft) = Inr fpn"
  obtains in_strides k where
    "map_err (getitem (out_feature_strides bu)) in_feats = Inr in_strides"
    "in_strides \<noteq> []"
    "\<forall>s\<in>set in_strides. 0 < s"
    "assert_strides_are_log2_contiguous in_strides = Inr ()"
    "map (\<lambda>s. ilog2 (nat s)) in_strides = [k..<k + length in_strides]"
    "self_out_feature_strides fpn
       = map (\<lambda>s. (''p'' @ str_nat (ilog2 (nat s)), s)) in_strides
         @ (case tb of
              None \<Rightarrow> []
            | Some t \<Rightarrow> map (\<lambda>j. (''p'' @ str_nat j, 2 ^ j))
                         [k + length in_strides..<k + length in_strides + num_levels t])"
    "self_out_features fpn = map fst (self_out_feature_strides fpn)"
    "distinct (self_out_features fpn)"
    "self_out_feature_channels fpn = map (\<lambda>name. (name, outc)) (self_out_features fpn)"
    "top_block fpn = tb" "self_fuse_type fpn = ft" "bottom_up fpn = bu"
    "in_features fpn = in_feats" "ft = ''avg'' \<or> ft = ''sum''"
proof -
  from assms obtain in_strides in_chans st where
    strides: "map_err (getitem (out_feature_strides bu)) in_feats = Inr in_strides"
    and chans: "map_err (getitem (out_feature_channels bu)) in_feats = Inr in_chans"
    and contig: "assert_strides_are_log2_contiguous in_strides = Inr ()"
    and levels: "build_levels gn nm outc in_strides (enumerate 0 in_chans) no_levels = (None, st)"
    and fin: "finish_init bu in_feats outc tb ft in_strides st = Inr fpn"
    by (auto simp: FPN_init_def split: sum.splits option.splits prod.splits)
  from fin obtain pyr strides_all where
    pyr: "pyramid_strides in_strides = Inr pyr"
    and all: "(case tb of None \<Rightarrow> Inr pyr
               | Some t \<Rightarrow> (case lv_stage st of None \<Rightarrow> Inl (UnboundLocalError ''stage'')
                             | Some stage \<Rightarrow> Inr (top_block_strides stage (num_levels t) pyr)))
              = Inr strides_all"
    and ne: "in_strides \<noteq> []"
    and ft: "ft = ''avg'' \<or> ft = ''sum''"
    and fpn: "fpn = \<lparr>lateral_convs = rev (lv_lateral_convs st),
        output_convs = rev (lv_output_convs st),
        lateral_names = rev (lv_lateral_names st),
        output_conv_names = rev (lv_output_conv_names st),
        modules = lv_modules st,
        top_block = tb,
        in_features = in_feats,
        bottom_up = bu,
        self_out_feature_strides = strides_all,
        self_out_features = map fst strides_all,
        self_out_feature_channels = dict (map (\<lambda>k. (k, outc)) (map fst strides_all)),
        self_size_divisibility = last in_strides,
        self_fuse_type = ft\<rparr>"
    unfolding finish_init_def by (auto simp: ebind_Inr_iff split: if_splits)
  from pyramid_strides_Inr [OF pyr] have
    pos: "\<forall>s\<in>set in_strides. 0 < s"
    and pyr_eq: "pyr = dict (map (\<lambda>s. (''p'' @ str_nat (ilog2 (nat s)), s)) in_strides)"
    by simp_all
  define k where "k = ilog2 (nat (hd in_strides))"
  define n where "n = length in_strides"
  have stages: "map (\<lambda>s. ilog2 (nat s)) in_strides = [k..<k + n]"
    unfolding k_def n_def using contiguous_stages [OF contig pos ne] .
  have keys: "map fst (map (\<lambda>s. (''p'' @ str_nat (ilog2 (nat s)), s)) in_strides)
                = map (\<lambda>j. ''p'' @ str_nat j) [k..<k + n]"
    using arg_cong [OF stages, of "map (\<lambda>j. ''p'' @ str_nat j)"] by (simp add: comp_def)
  then have pyr': "pyr = map (\<lambda>s. (''p'' @ str_nat (ilog2 (nat s)), s)) in_strides"
    unfolding pyr_eq using p_names_distinct [of k "k + n"] by (intro dict_distinct) simp
  have pyr_keys: "map fst pyr = map (\<lambda>j. ''p'' @ str_nat j) [k..<k + n]"
    using keys pyr' by simp
  have n_pos: "0 < n" using ne by (simp add: n_def)
  have all_eq: "strides_all = pyr @ (case tb of None \<Rightarrow> []
        | Some t \<Rightarrow> map (\<lambda>j. (''p'' @ str_nat j, 2 ^ j)) [k + n..<k + n + num_levels t])"
  proof (cases tb)
    case None
    with all show ?thesis by simp
  next
    case (Some t)
    have "length in_chans = length in_strides"
      using map_err_length [OF strides] map_err_length [OF chans] by simp
    with ne have "in_chans \<noteq> []" by auto
    from build_levels_stage [OF levels this]
    have "lv_stage st = Some (ilog2 (nat (in_strides ! (n - 1))))"
      using \<open>length in_chans = length in_strides\<close> by (simp add: n_def)
    moreover have "ilog2 (nat (in_strides ! (n - 1))) = k + n - 1"
    proof -
      have "n - 1 < length in_strides" using n_pos by (simp add: n_def)
      then have "map (\<lambda>s. ilog2 (nat s)) in_strides ! (n - 1) = ilog2 (nat (in_strides ! (n - 1)))"
        by (rule nth_map)
      moreover have "[k..<k + n] ! (n - 1) = k + (n - 1)"
        using n_pos by (intro nth_upt) simp
      ultimately have "ilog2 (nat (in_strides ! (n - 1))) = k + (n - 1)"
        using stages by simp
      with n_pos show ?thesis by arith
    qed
    ultimately have stage: "lv_stage st = Some (k + n - 1)" by simp
    have "top_block_strides (k + n - 1) (num_levels t) pyr
            = pyr @ map (\<lambda>j. (''p'' @ str_nat j, 2 ^ j))
                      [Suc (k + n - 1)..<Suc (k + n - 1) + num_levels t]"
    proof (rule top_block_strides_append)
      show "distinct (map fst pyr)" unfolding pyr_keys by (rule p_names_distinct)
      show "fst ` set pyr \<subseteq> (\<lambda>j. ''p'' @ str_nat j) ` {..k + n - 1}"
        using arg_cong [OF pyr_keys, of set] by auto
    qed
    with Some all stage n_pos show ?thesis by simp
  qed
  have dist: "distinct (map fst strides_all)"
  proof -
    have "map fst strides_all = map (\<lambda>j. ''p'' @ str_nat j)
            ([k..<k + n] @ (case tb of None \<Rightarrow> [] | Some t \<Rightarrow> [k + n..<k + n + num_levels t]))"
      unfolding all_eq using pyr_keys by (simp add: comp_def split: option.splits)
    also have "[k..<k + n] @ (case tb of None \<Rightarrow> [] | Some t \<Rightarrow> [k + n..<k + n + num_levels t])
                = [k..<k + n + (case tb of None \<Rightarrow> 0 | Some t \<Rightarrow> num_levels t)]"
    proof (cases tb)
      case None
      then show ?thesis by simp
    next
      case (Some t)
      then show ?thesis
        using upt_add_eq_append [of k "k + n" "num_levels t"] by simp
    qed
    finally show ?thesis
      using p_names_distinct [of k "k + n + (case tb of None \<Rightarrow> 0 | Some t \<Rightarrow> num_levels t)"]
      by simp
  qed
  have chan_eq: "dict (map (\<lambda>k. (k, outc)) (map fst strides_all))
                   = map (\<lambda>k. (k, outc)) (map fst strides_all)"
    using dist by (intro dict_distinct) (simp add: comp_def)
  show ?thesis
  proof (rule that [of in_strides k])
    show "self_out_feature_strides fpn
       = map (\<lambda>s. (''p'' @ str_nat (ilog2 (nat s)), s)) in_strides
         @ (case tb of
              None \<Rightarrow> []
            | Some t \<Rightarrow> map (\<lambda>j. (''p'' @ str_nat j, 2 ^ j))
                         [k + length in_strides..<k + length in_strides + num_levels t])"
      using all_eq pyr' unfolding n_def by (simp add: fpn)
    show "self_out_feature_channels fpn = map (\<lambda>name. (name, outc)) (self_out_features fpn)"
      using chan_eq by (simp add: fpn)
    show "map (\<lambda>s. ilog2 (nat s)) in_strides = [k..<k + length in_strides]"
      using stages by (simp add: n_def)
  qed (use strides ne pos contig dist ft in \<open>simp_all add: fpn\<close>)
qed

lemma map_of_const: "name \<in> set names \<Longrightarrow> map_of (map (\<lambda>n. (n, c)) names) name = Some c"
  by (induction names) auto

lemma output_shape_eval:
  assumes "self_out_features fpn = map fst (self_out_feature_strides fpn)"
    and "distinct (self_out_features fpn)"
    and "self_out_feature_channels fpn = map (\<lambda>name. (name, outc)) (self_out_features fpn)"
  shows "output_shape fpn
           = Inr (map (\<lambda>kv. (fst kv, \<lparr>channels = outc, stride = snd kv\<rparr>)) (self_out_feature_strides fpn))"
proof -
  let ?f = "\<lambda>name. ebind (getitem (self_out_feature_channels fpn) name) (\<lambda>c.
              ebind (getitem (self_out_feature_strides fpn) name) (\<lambda>s.
              Inr (name, \<lparr>channels = c, stride = s\<rparr>)))"
  let ?g = "\<lambda>name. (name, \<lparr>channels = outc, stride = the (map_of (self_out_feature_strides fpn) name)\<rparr>)"
  have "map_err ?f (self_out_features fpn) = Inr (map ?g (self_out_features fpn))"
  proof (rule map_err_Inr_map)
    fix name assume name: "name \<in> set (self_out_features fpn)"
    then have "map_of (self_out_feature_channels fpn) name = Some outc"
      unfolding assms(3) by (rule map_of_const)
    moreover from name obtain s where "map_of (self_out_feature_strides fpn) name = Some s"
      unfolding assms(1) by (metis map_of_eq_None_iff not_Some_eq set_map)
    ultimately show "?f name = Inr (?g name)"
      by (simp add: getitem_def)
  qed
  moreover have "map ?g (self_out_features fpn)
                   = map (\<lambda>kv. (fst kv, \<lparr>channels = outc, stride = snd kv\<rparr>)) (self_out_feature_strides fpn)"
  proof -
    have "\<And>kv. kv \<in> set (self_out_feature_strides fpn) \<Longrightarrow>
            map_of (self_out_feature_strides fpn) (fst kv) = Some (snd kv)"
      using assms(1,2) by (metis map_of_is_SomeI prod.collapse)
    then show ?thesis unfolding assms(1) by (simp add: comp_def)
  qed
  moreover have "distinct (map fst (map (\<lambda>kv. (fst kv, \<lparr>channels = outc, stride = snd kv\<rparr>))
                     (self_out_feature_strides fpn)))"
    using assms(1,2) by (simp add: comp_def)
  ultimately show ?thesis
    by (simp add: output_shape_def dict_distinct)
qed

lemma toy_p6p7_init:
  "snd (FPN_init no_norm toy_backbone [''res4'', ''res5''] 1 '''' (Some (toy_p6p7 1 3)) ''sum'')
     = Inr (toy_fpn (Some (toy_p6p7 1 3)) ''sum'')"
  by (rule toy_fpn_fields) simp

lemma plain_fpn_init:
  "snd (FPN_init no_norm toy_backbone [''res2'', ''res3'', ''res4'', ''res5''] 256 ''''
                   None ''sum'') = Inr plain_fpn"
  by (simp add: plain_fpn_def toy_backbone_def eval_defs)

lemma resnet_fpn_init:
  "snd (FPN_init no_norm toy_backbone [''res2'', ''res3'', ''res4'', ''res5''] 256 ''''
                   (Some LastLevelMaxPool) ''sum'') = Inr resnet_fpn"
  by (simp add: resnet_fpn_def toy_backbone_def eval_defs)

text \<open>
  C9. For every object the constructor returns, the output-shape query succeeds, has one
  entry per output name (the pyramid levels and the levels of the top block, if any), and
  reports the constructor's single \<open>out_channels\<close> value for every one of them, whatever
  the top block is and whatever channel counts its own convolutions were built with.
\<close>

theorem output_shape_uniform_channels:
  assumes "snd (FPN_init gn bu in_feats outc nm tb ft) = Inr fpn"
  shows "\<exists>shapes. output_shape fpn = Inr shapes \<and>
           map fst shapes = self_out_features fpn \<and>
           length (self_out_features fpn)
             = length in_feats + (case tb of None \<Rightarrow> 0 | Some t \<Rightarrow> num_levels t) \<and>
           (\<forall>name\<in>set (self_out_features fpn). \<exists>sp.
               map_of shapes name = Some sp \<and> channels sp = outc)"
proof -
  from assms obtain in_strides k where
    strides: "map_err (getitem (out_feature_strides bu)) in_feats = Inr in_strides"
    and all: "self_out_feature_strides fpn
       = map (\<lambda>s. (''p'' @ str_nat (ilog2 (nat s)), s)) in_strides
         @ (case tb of
              None \<Rightarrow> []
            | Some t \<Rightarrow> map (\<lambda>j. (''p'' @ str_nat j, 2 ^ j))
                         [k + length in_strides..<k + length in_strides + num_levels t])"
    and feats: "self_out_features fpn = map fst (self_out_feature_strides fpn)"
    and dist: "distinct (self_out_features fpn)"
    and chans: "self_out_feature_channels fpn = map (\<lambda>name. (name, outc)) (self_out_features fpn)"
    by (rule FPN_init_Inr)
  let ?shapes = "map (\<lambda>kv. (fst kv, \<lparr>channels = outc, stride = snd kv\<rparr>)) (self_out_feature_strides fpn)"
  have 1: "output_shape fpn = Inr ?shapes"
    using feats dist chans by (rule output_shape_eval)
  have 2: "map fst ?shapes = self_out_features fpn"
    by (simp add: feats comp_def)
  have 3: "length (self_out_features fpn)
             = length in_feats + (case tb of None \<Rightarrow> 0 | Some t \<Rightarrow> num_levels t)"
    using map_err_length [OF strides] by (simp add: feats all split: option.splits)
  have 4: "\<forall>name\<in>set (self_out_features fpn). \<exists>sp.
               map_of ?shapes name = Some sp \<and> channels sp = outc"
  proof
    fix name assume "name \<in> set (self_out_features fpn)"
    then have "name \<in> fst ` set ?shapes" using 2 by (metis set_map)
    then obtain sp where "map_of ?shapes name = Some sp"
      by (metis map_of_eq_None_iff not_Some_eq)
    moreover from this have "(name, sp) \<in> set ?shapes" by (rule map_of_SomeD)
    then have "channels sp = outc" by auto
    ultimately show "\<exists>sp. map_of ?shapes name = Some sp \<and> channels sp = outc" by blast
  qed
  from 1 2 3 4 show ?thesis by blast
qed

theorem output_shape_uniform_channels_witness:
  "output_shape (toy_fpn (Some (toy_p6p7 1 3)) ''sum'')
     = Inr [(''p4'', \<lparr>channels = 1, stride = 16\<rparr>), (''p5'', \<lparr>channels = 1, stride = 32\<rparr>),
            (''p6'', \<lparr>channels = 1, stride = 64\<rparr>), (''p7'', \<lparr>channels = 1, stride = 128\<rparr>)] \<and>
   LastLevelP6P7_init 1 3 = Inr (toy_p6p7 1 3) \<and>
   toy_p6p7 1 3 = LastLevelP6P7 (Conv2d_object TopP6 1 3 3 2 1 True None)
                    (Conv2d_object TopP7 3 3 3 2 1 True None) \<and>
   out_channels (Conv2d_object TopP7 3 3 3 2 1 True None :: unit conv2d) = 3"
proof -
  have "output_shape (toy_fpn (Some (toy_p6p7 1 3)) ''sum'')
     = Inr [(''p4'', \<lparr>channels = 1, stride = 16\<rparr>), (''p5'', \<lparr>channels = 1, stride = 32\<rparr>),
            (''p6'', \<lparr>channels = 1, stride = 64\<rparr>), (''p7'', \<lparr>channels = 1, stride = 128\<rparr>)]"
    by (simp add: output_shape_def toy_fpn_def toy_backbone_def eval_defs toy_p6p7_def
        LastLevelP6P7_init_def nn_Conv2d_def)
  with output_shape_uniform_channels [OF toy_p6p7_init] show ?thesis
    by (simp add: toy_p6p7_def LastLevelP6P7_init_def nn_Conv2d_def Conv2d_init_def
        Conv2d_object_def)
qed

text \<open>
  C3. When the selected features have strides 4, 8, 16, 32, the output stride mapping of
  the constructed object is \<open>p2: 4, p3: 8, p4: 16, p5: 32\<close>, every level named
  \<open>p<stage>\<close> with \<open>stage = log2(stride)\<close>. Without a top block (the constructor's
  default) that is the whole mapping; a top block appends its own levels after these four,
  \<open>p6: 64\<close> for a block of one level and \<open>p6: 64, p7: 128\<close> for a block of two.
\<close>

theorem output_strides_4_to_32:
  assumes "map_err (getitem (out_feature_strides bu)) in_feats = Inr [4, 8, 16, 32]"
    and "snd (FPN_init gn bu in_feats outc nm tb ft) = Inr fpn"
  shows "self_out_feature_strides fpn
           = [(''p2'', 4), (''p3'', 8), (''p4'', 16), (''p5'', 32)]
             @ (case tb of
                  None \<Rightarrow> []
                | Some t \<Rightarrow> if num_levels t = 1 then [(''p6'', 64)]
                            else [(''p6'', 64), (''p7'', 128)])"
proof -
  from assms(2) obtain in_strides k where
    strides: "map_err (getitem (out_feature_strides bu)) in_feats = Inr in_strides"
    and stages: "map (\<lambda>s. ilog2 (nat s)) in_strides = [k..<k + length in_strides]"
    and all: "self_out_feature_strides fpn
       = map (\<lambda>s. (''p'' @ str_nat (ilog2 (nat s)), s)) in_strides
         @ (case tb of
              None \<Rightarrow> []
            | Some t \<Rightarrow> map (\<lambda>j. (''p'' @ str_nat j, 2 ^ j))
                         [k + length in_strides..<k + length in_strides + num_levels t])"
    by (rule FPN_init_Inr)
  from strides assms(1) have in_strides: "in_strides = [4, 8, 16, 32]" by simp
  have "hd (map (\<lambda>s. ilog2 (nat s)) in_strides) = hd [k..<k + length in_strides]"
    using stages by simp
  then have k: "k = 2" by (simp add: in_strides ilog2_numerals upt_rec)
  have levels: "num_levels t = 1 \<or> num_levels t = 2" for t :: "'a top_block"
    by (cases t) simp_all
  show ?thesis
  proof (cases tb)
    case None
    then show ?thesis by (simp add: all in_strides ilog2_numerals str_nat_digits)
  next
    case (Some t)
    with levels [of t] show ?thesis
      by (auto simp: all in_strides k ilog2_numerals str_nat_digits upt_rec)
  qed
qed

theorem output_strides_4_to_32_witness:
  "snd (FPN_init no_norm toy_backbone [''res2'', ''res3'', ''res4'', ''res5''] 256 '''' None ''sum'')
     = Inr plain_fpn \<and>
   map_err (getitem (out_feature_strides toy_backbone)) [''res2'', ''res3'', ''res4'', ''res5'']
     = Inr [4, 8, 16, 32] \<and>
   self_out_feature_strides plain_fpn = [(''p2'', 4), (''p3'', 8), (''p4'', 16), (''p5'', 32)] \<and>
   self_out_feature_strides resnet_fpn
     = [(''p2'', 4), (''p3'', 8), (''p4'', 16), (''p5'', 32), (''p6'', 64)]"
proof -
  have a: "map_err (getitem (out_feature_strides toy_backbone))
             [''res2'', ''res3'', ''res4'', ''res5''] = Inr [4, 8, 16, 32]"
    by (simp add: toy_backbone_def getitem_def)
  from output_strides_4_to_32 [OF a plain_fpn_init] output_strides_4_to_32 [OF a resnet_fpn_init]
    a plain_fpn_init
  show ?thesis by simp
qed

subsection \<open>The top block in the forward pass\<close>

lemma extend_results_Some:
  assumes "extend_results call self buf results0 = Inr results" "top_block self = Some tb"
  obtains inp extra where
    "top_block_input self buf results0 tb = Inr inp"
    "top_block_forward call tb inp = Inr extra"
    "results = results0 @ extra"
  using assms by (auto simp: extend_results_def ebind_Inr_iff)

lemma top_block_input_cases:
  assumes "top_block_input self buf results tb = Inr inp"
  shows "case map_of buf (in_feature tb) of
           Some t \<Rightarrow> inp = t
         | None \<Rightarrow> \<exists>i. index_of (self_out_features self) (in_feature tb) = Inr i \<and>
                        i < length results \<and> inp = results ! i"
  using assms
  by (auto simp: top_block_input_def ebind_Inr_iff split: option.splits if_splits)

lemma top_block_forward_length:
  "top_block_forward call tb inp = Inr extra \<Longrightarrow> length extra = num_levels tb"
  by (cases tb) (auto simp: ebind_Inr_iff)

lemma index_of_mem: "index_of xs x = Inr i \<Longrightarrow> x \<in> set xs"
  by (induction xs arbitrary: i) (auto simp: ebind_Inr_iff split: if_splits)

lemma index_of_nth: "distinct xs \<Longrightarrow> i < length xs \<Longrightarrow> index_of xs (xs ! i) = Inr i"
proof (induction xs arbitrary: i)
  case Nil
  then show ?case by simp
next
  case (Cons y ys)
  show ?case
  proof (cases i)
    case 0
    then show ?thesis by simp
  next
    case (Suc j)
    with Cons.prems have "ys ! j \<noteq> y" "index_of ys (ys ! j) = Inr j"
      using Cons.IH [of j] by auto
    with Suc show ?thesis by simp
  qed
qed

lemma toy_p6p7_init1:
  "snd (FPN_init no_norm toy_backbone [''res4'', ''res5''] 1 '''' (Some (toy_p6p7 1 1)) ''avg'')
     = Inr (toy_fpn (Some (toy_p6p7 1 1)) ''avg'')"
  by (rule toy_fpn_fields) simp

lemma deep_fpn_init:
  "snd (FPN_init no_norm deep_backbone [''res5'', ''res6''] 1 '''' (Some LastLevelMaxPool) ''sum'')
     = Inr deep_fpn"
  by (simp add: deep_fpn_def deep_backbone_def eval_defs)

lemma deep_pyramid:
  "pyramid toy_call deep_fpn deep_features = Inr [[[[[f32 8, f32 9], [f32 10, f32 11]]]], [[[[f32 7]]]]]"
  by (simp add: deep_fpn_def deep_backbone_def deep_features_def eval_defs fwd_defs)

lemma deep_strides:
  "self_out_feature_strides deep_fpn = [(''p5'', 32), (''p6'', 64), (''p7'', 128)]"
  by (simp add: deep_fpn_def deep_backbone_def eval_defs)

text \<open>
  C5. For an object constructed with a top block, whenever \<open>forward\<close> returns: the input
  of the top block is the bottom-up feature named \<open>in_feature\<close> if the bottom-up network
  returned one, and only otherwise the pyramid result at the position of that name among
  the output names; the top block's outputs, as many as its \<open>num_levels\<close>, follow the
  pyramid results. For \<^verbatim>\<open>LastLevelP6P7\<close> the input is always the raw \<^verbatim>\<open>res5\<close> of the
  bottom-up network (no output is named \<^verbatim>\<open>res5\<close>), and the two levels are
  \<open>p6 = conv(c5)\<close> and \<open>p7 = conv(relu(p6))\<close>.
\<close>

theorem top_block_input_resolution:
  assumes init: "snd (FPN_init gn bu in_feats outc nm (Some tb) ft) = Inr fpn"
    and fwd: "forward call fpn x = Inr outputs"
  shows "\<exists>bottom_up_features results inp extra res2.
           bb_forward bu x = Inr bottom_up_features \<and>
           pyramid call fpn bottom_up_features = Inr results \<and>
           (case map_of bottom_up_features (in_feature tb) of
              Some t \<Rightarrow> inp = t
            | None \<Rightarrow> \<exists>i. index_of (self_out_features fpn) (in_feature tb) = Inr i \<and>
                           i < length results \<and> inp = results ! i) \<and>
           top_block_forward call tb inp = Inr extra \<and>
           length extra = num_levels tb \<and>
           map_of bottom_up_features ''res2'' = Some res2 \<and>
           outputs = AList.update ''res2'' res2
                       (dict (zip (self_out_features fpn) (results @ extra))) \<and>
           (\<forall>p6 p7. tb = LastLevelP6P7 p6 p7 \<longrightarrow>
              (\<exists>c5 p6_out p7_out.
                 map_of bottom_up_features ''res5'' = Some c5 \<and> inp = c5 \<and>
                 call p6 c5 = Inr p6_out \<and> call p7 (relu p6_out) = Inr p7_out \<and>
                 extra = [p6_out, p7_out]))"
proof -
  from init obtain in_strides k where
    all: "self_out_feature_strides fpn
       = map (\<lambda>s. (''p'' @ str_nat (ilog2 (nat s)), s)) in_strides
         @ (case Some tb of
              None \<Rightarrow> []
            | Some t \<Rightarrow> map (\<lambda>j. (''p'' @ str_nat j, 2 ^ j))
                         [k + length in_strides..<k + length in_strides + num_levels t])"
    and feats: "self_out_features fpn = map fst (self_out_feature_strides fpn)"
    and tb: "top_block fpn = Some tb" and bu: "bottom_up fpn = bu"
    by (rule FPN_init_Inr)
  from fwd obtain buf results0 results res2 where
    buf: "bb_forward (bottom_up fpn) x = Inr buf"
    and pyr: "pyramid call fpn buf = Inr results0"
    and ext: "extend_results call fpn buf results0 = Inr results"
    and res2: "map_of buf ''res2'' = Some res2"
    and out: "outputs = AList.update ''res2'' res2 (dict (zip (self_out_features fpn) results))"
    by (rule forward_Inr)
  from ext tb obtain inp extra where
    inp: "top_block_input fpn buf results0 tb = Inr inp"
    and extra: "top_block_forward call tb inp = Inr extra"
    and results: "results = results0 @ extra"
    by (rule extend_results_Some)
  note res = top_block_input_cases [OF inp]
  have no_res5: "''res5'' \<notin> set (self_out_features fpn)"
    unfolding feats all by (auto simp: comp_def)
  have p6p7: "\<exists>c5 p6_out p7_out.
                 map_of buf ''res5'' = Some c5 \<and> inp = c5 \<and>
                 call p6 c5 = Inr p6_out \<and> call p7 (relu p6_out) = Inr p7_out \<and>
                 extra = [p6_out, p7_out]" if "tb = LastLevelP6P7 p6 p7" for p6 p7
  proof -
    have "map_of buf ''res5'' \<noteq> None"
    proof
      assume "map_of buf ''res5'' = None"
      with res that obtain i where "index_of (self_out_features fpn) ''res5'' = Inr i"
        by auto
      then show False using no_res5 index_of_mem by blast
    qed
    then obtain c5 where c5: "map_of buf ''res5'' = Some c5" by blast
    with res that have "inp = c5" by simp
    with extra that c5 show ?thesis by (auto simp: ebind_Inr_iff)
  qed
  show ?thesis
    using buf bu pyr res extra top_block_forward_length [OF extra] res2 out results p6p7
    by blast
qed

theorem top_block_input_resolution_witness:
  "forward toy_call (toy_fpn (Some (toy_p6p7 1 1)) ''avg'') toy_image =
     Inr [(''p4'', [[[[fdiv2 (f32 11), f32 6], [fdiv2 (f32 13), f32 7]]]]), (''p5'', [[[[f32 10]]]]), (''p6'', [[[[f32 10]]]]),
          (''p7'', [[[[f32 10]]]]), (''res2'', full 1 1 8 8 (f32 1))] \<and>
   map_of toy_features ''res5'' = Some [[[[f32 10]]]] \<and>
   toy_p6p7 1 1 = LastLevelP6P7 (Conv2d_object TopP6 1 1 3 2 1 True None)
                    (Conv2d_object TopP7 1 1 3 2 1 True None) \<and>
   toy_call (Conv2d_object TopP6 1 1 3 2 1 True None) [[[[f32 10]]]] = Inr [[[[f32 10]]]] \<and>
   toy_call (Conv2d_object TopP7 1 1 3 2 1 True None) (relu [[[[f32 10]]]]) = Inr [[[[f32 10]]]]"
proof -
  have a: "map_of toy_features ''res5'' = Some [[[[f32 10]]]]"
    by (simp add: toy_features_def)
  have b: "toy_p6p7 1 1 = LastLevelP6P7 (Conv2d_object TopP6 1 1 3 2 1 True None)
                            (Conv2d_object TopP7 1 1 3 2 1 True None)"
    by (simp add: toy_p6p7_def LastLevelP6P7_init_def nn_Conv2d_def Conv2d_init_def)
  have c: "toy_call (Conv2d_object TopP6 1 1 3 2 1 True None) [[[[f32 10]]]] = Inr [[[[f32 10]]]]"
    by (simp add: toy_call_def Conv2d_object_def max_pool2d_def max_pool_plane_def pool_size_def
        window_def maximum_def)
  have d: "toy_call (Conv2d_object TopP7 1 1 3 2 1 True None) (relu [[[[f32 10]]]])
             = Inr [[[[f32 10]]]]"
    by (simp add: toy_call_def Conv2d_object_def relu_def max_pool2d_def max_pool_plane_def
        pool_size_def window_def maximum_def float_eval)
  from top_block_input_resolution [OF toy_p6p7_init1 toy_p6p7_avg] toy_p6p7_avg a b c d
  show ?thesis by - (intro conjI, assumption+)
qed

text \<open>
  C7. The claim: with \<^verbatim>\<open>LastLevelMaxPool\<close> the one extra level is the max-pooling
  (kernel size 1, stride 2) of the last pyramid output, as the constructor's docstring
  (lines 54-56) also says. The block's input is fixed to the name \<^verbatim>\<open>p5\<close> (line 277),
  so on the levels of strides 32 and 64 the code does otherwise: the outputs are
  \<^verbatim>\<open>p5\<close>, \<^verbatim>\<open>p6\<close> and the extra \<^verbatim>\<open>p7\<close> of stride 128, and \<^verbatim>\<open>p7\<close> is pooled
  from the pyramid result \<^verbatim>\<open>p5\<close>, not from the last pyramid result \<^verbatim>\<open>p6\<close>.
\<close>

theorem max_pool_reads_p5_not_last_output:
  "snd (FPN_init no_norm deep_backbone [''res5'', ''res6''] 1 '''' (Some LastLevelMaxPool) ''sum'')
     = Inr deep_fpn \<and>
   self_out_feature_strides deep_fpn = [(''p5'', 32), (''p6'', 64), (''p7'', 128)] \<and>
   forward toy_call deep_fpn toy_image =
     Inr [(''p5'', [[[[f32 8, f32 9], [f32 10, f32 11]]]]), (''p6'', [[[[f32 7]]]]), (''p7'', [[[[f32 8]]]]),
          (''res2'', full 1 1 16 16 (f32 1))] \<and>
   pyramid toy_call deep_fpn deep_features = Inr [[[[[f32 8, f32 9], [f32 10, f32 11]]]], [[[[f32 7]]]]] \<and>
   max_pool2d (hd [[[[[f32 8, f32 9], [f32 10, f32 11]]]], [[[[f32 7]]]]]) 1 2 = Inr [[[[f32 8]]]] \<and>
   max_pool2d (last [[[[[f32 8, f32 9], [f32 10, f32 11]]]], [[[[f32 7]]]]]) 1 2 = Inr [[[[f32 7]]]] \<and>
   max_pool2d (last [[[[[f32 8, f32 9], [f32 10, f32 11]]]], [[[[f32 7]]]]]) 1 2 \<noteq> Inr [[[[f32 8]]]]"
  using deep_fpn_init deep_eval deep_pyramid deep_strides
  by (simp add: max_pool2d_def max_pool_plane_def pool_size_def window_def maximum_def
      float_eval)

end









